theory Spec2Isabelle
  imports Main "HOL-Library.Char_ord" "HOL-Library.List_Lexorder"
begin

section \<open>Data model of the alert scheduler\<close>

text \<open>
  The development embeds \<^verbatim>\<open>CapabilityAgents/Alerts/src/AlertScheduler.cpp\<close>.
  The scheduler object is a record that every member function takes and returns.
  Alerts are held by value: the scheduler never mutates an alert while it is a member
  of the scheduled set (it erases first, mutates, then inserts again), so sharing of
  the \<^verbatim>\<open>shared_ptr\<close> is not observable in the functions modelled here.
  Seconds since the epoch are \<^verbatim>\<open>int64_t\<close> in the source. The record fields hold them
  as \<^typ>\<open>int\<close>, and where the scheduler computes with them, in the subtraction of
  \<^verbatim>\<open>setTimerForNextAlertLocked\<close>, the result is cut to 64 bits.
\<close>

text \<open>The value of a 64-bit two's complement computation whose exact result is \<open>x\<close>.\<close>

definition int64 :: "int \<Rightarrow> int" where
  "int64 x = (x + 2 ^ 63) mod 2 ^ 64 - 2 ^ 63"

definition fitsInt64 :: "int \<Rightarrow> bool" where
  "fitsInt64 x = (- (2 ^ 63) \<le> x \<and> x < 2 ^ 63)"

datatype alert_state =
  Alert_UNSET | Alert_SET | Alert_ACTIVATING | Alert_ACTIVE | Alert_SNOOZING
  | Alert_SNOOZED | Alert_STOPPING | Alert_STOPPED | Alert_COMPLETED

datatype stop_reason = AVS_STOP | LOCAL_STOP | SHUTDOWN | LOG_OUT

datatype focus_state = NONE | BACKGROUND | FOREGROUND

text \<open>The states of \<^verbatim>\<open>AlertObserverInterface::State\<close> that the switch of
  \<^verbatim>\<open>executeOnAlertStateChange\<close> enumerates.\<close>

datatype observer_state =
  READY | STARTED | STOPPED | SNOOZED | COMPLETED | PAST_DUE
  | FOCUS_ENTERED_FOREGROUND | FOCUS_ENTERED_BACKGROUND | ERROR | DELETED

record alert =
  getToken :: string
  getTypeName :: string
  getScheduledTime_ISO_8601 :: string
  getScheduledTime_Unix :: int
  getState :: alert_state
  getStopReason :: "stop_reason option"
  getFocusState :: focus_state
  hasRenderer :: bool
  hasObserver :: bool

text \<open>A persisted row: the fields of an alert that survive a restart.\<close>

record row =
  rowToken :: string
  rowTypeName :: string
  rowTime_ISO_8601 :: string
  rowTime_Unix :: int
  rowState :: alert_state

type_synonym notification = "string \<times> string \<times> observer_state \<times> string"

text \<open>
  What the collaborators answer during one call of a member function: the clock read by
  the function itself and the one read inside \<^verbatim>\<open>setTimerForNextAlertLocked\<close>, the
  ISO-8601 conversion of the time point class, the success of each storage request and
  of the timer start.
\<close>

record env =
  clockAtEntry :: "int option"
  clockAtTimer :: "int option"
  convert8601 :: "string \<Rightarrow> int option"
  openOk :: bool
  createDatabaseOk :: bool
  loadOk :: bool
  storeOk :: "alert \<Rightarrow> bool"
  modifyOk :: "alert \<Rightarrow> bool"
  eraseOk :: "alert \<Rightarrow> bool"
  clearDatabaseOk :: bool
  timerStartOk :: bool

text \<open>What a started timer holds: the delay and the arguments bound to
  \<^verbatim>\<open>onAlertReady\<close>.\<close>

record timer_task =
  taskDelay :: int
  taskToken :: string
  taskType :: string

record scheduler =
  m_alertPastDueTimeLimit :: int
  m_observer :: bool
  m_alertStorage :: "row list"
  m_activeAlert :: "alert option"
  m_scheduledAlerts :: "alert list"
  m_focusState :: focus_state
  m_scheduledAlertTimer :: "timer_task option"
  m_executor :: "notification list"

text \<open>The constructor: no observer, nothing scheduled, nothing active, focus
  \<^const>\<open>NONE\<close>, timer idle. The storage handle it is given holds the rows persisted
  by an earlier run.\<close>

definition AlertScheduler :: "row list \<Rightarrow> int \<Rightarrow> scheduler" where
  "AlertScheduler alertStorage alertPastDueTimeLimit =
     \<lparr> m_alertPastDueTimeLimit = alertPastDueTimeLimit,
       m_observer = False,
       m_alertStorage = alertStorage,
       m_activeAlert = None,
       m_scheduledAlerts = [],
       m_focusState = NONE,
       m_scheduledAlertTimer = None,
       m_executor = [] \<rparr>"

section \<open>The alert entity\<close>

text \<open>Modelled from the spec: the member functions of the alert class, whose
  implementation file is not among the sources. The spec gives the contract
  (section 4.2) and the effects: past-due means the scheduled time precedes
  \<open>now - tolerance\<close>; after \<open>reset\<close> the state is Set; \<open>activate\<close> enters Activating;
  \<open>deactivate\<close> records the reason and enters Stopping; \<open>snooze\<close> moves the schedule
  and enters Snoozing; \<open>updateScheduledTime\<close> reports whether the new time was
  accepted.\<close>

definition isPastDue :: "alert \<Rightarrow> int \<Rightarrow> int \<Rightarrow> bool" where
  "isPastDue a currentUnixTime timeLimit =
     (getScheduledTime_Unix a < currentUnixTime - timeLimit)"

definition reset :: "alert \<Rightarrow> alert" where
  "reset a = a\<lparr>getState := Alert_SET\<rparr>"

definition setStateActive :: "alert \<Rightarrow> alert" where
  "setStateActive a = a\<lparr>getState := Alert_ACTIVE\<rparr>"

definition setRenderer :: "alert \<Rightarrow> alert" where
  "setRenderer a = a\<lparr>hasRenderer := True\<rparr>"

definition setObserver :: "alert \<Rightarrow> alert" where
  "setObserver a = a\<lparr>hasObserver := True\<rparr>"

definition setFocusState :: "focus_state \<Rightarrow> alert \<Rightarrow> alert" where
  "setFocusState f a = a\<lparr>getFocusState := f\<rparr>"

definition activate :: "alert \<Rightarrow> alert" where
  "activate a = a\<lparr>getState := Alert_ACTIVATING\<rparr>"

definition deactivate :: "stop_reason \<Rightarrow> alert \<Rightarrow> alert" where
  "deactivate reason a = a\<lparr>getState := Alert_STOPPING, getStopReason := Some reason\<rparr>"

definition updateScheduledTime :: "env \<Rightarrow> string \<Rightarrow> alert \<Rightarrow> bool \<times> alert" where
  "updateScheduledTime e newScheduledTime a =
     (case convert8601 e newScheduledTime of
        None \<Rightarrow> (False, a)
      | Some unix \<Rightarrow>
          (True, a\<lparr>getScheduledTime_ISO_8601 := newScheduledTime,
                   getScheduledTime_Unix := unix\<rparr>))"

definition snooze :: "env \<Rightarrow> string \<Rightarrow> alert \<Rightarrow> alert" where
  "snooze e updatedScheduledTime a =
     (case updateScheduledTime e updatedScheduledTime a of
        (False, a') \<Rightarrow> a'
      | (True, a') \<Rightarrow> a'\<lparr>getState := Alert_SNOOZING\<rparr>)"

text \<open>Modelled from the spec: the comparator of the scheduled set, declared with the
  alert class. The set is "keyed by (scheduledTime, token) ascending; token breaks
  ties"; tokens compare as \<^verbatim>\<open>std::string\<close> does, lexicographically by character
  code.\<close>

definition TimeComparator :: "alert \<Rightarrow> alert \<Rightarrow> bool" where
  "TimeComparator lhs rhs =
     (if getScheduledTime_Unix lhs = getScheduledTime_Unix rhs
      then getToken lhs < getToken rhs
      else getScheduledTime_Unix lhs < getScheduledTime_Unix rhs)"

section \<open>The ordered set\<close>

text \<open>\<^verbatim>\<open>std::set<std::shared_ptr<Alert>, Alert::TimeComparator>\<close> as the list of its
  elements in iteration order. Two alerts are the same key when neither compares
  below the other; \<open>insert\<close> leaves the set alone when the key is present and
  \<open>erase\<close> removes the element with the key of its argument.\<close>

definition equivalent :: "alert \<Rightarrow> alert \<Rightarrow> bool" where
  "equivalent a b = (\<not> TimeComparator a b \<and> \<not> TimeComparator b a)"

fun set_insert :: "alert \<Rightarrow> alert list \<Rightarrow> alert list" where
  "set_insert a [] = [a]"
| "set_insert a (b # bs) =
     (if TimeComparator a b then a # b # bs
      else if TimeComparator b a then b # set_insert a bs
      else b # bs)"

definition set_erase :: "alert \<Rightarrow> alert list \<Rightarrow> alert list" where
  "set_erase a xs = filter (\<lambda>b. \<not> equivalent a b) xs"

section \<open>Storage, timer and executor\<close>

text \<open>Modelled from the spec: the storage interface (section 4.3 and 6). Rows are
  keyed by token; every request reports success or failure and is atomic for a single
  row, so a failed request leaves the rows as they were. The bulk erase goes on past
  individual failures and succeeds iff every row was erased. A created database is
  empty.\<close>

definition toRow :: "alert \<Rightarrow> row" where
  "toRow a = \<lparr> rowToken = getToken a, rowTypeName = getTypeName a,
               rowTime_ISO_8601 = getScheduledTime_ISO_8601 a,
               rowTime_Unix = getScheduledTime_Unix a, rowState = getState a \<rparr>"

definition fromRow :: "row \<Rightarrow> alert" where
  "fromRow r = \<lparr> getToken = rowToken r, getTypeName = rowTypeName r,
                 getScheduledTime_ISO_8601 = rowTime_ISO_8601 r,
                 getScheduledTime_Unix = rowTime_Unix r, getState = rowState r,
                 getStopReason = None, getFocusState = NONE,
                 hasRenderer = False, hasObserver = False \<rparr>"

definition storage_store :: "env \<Rightarrow> alert \<Rightarrow> row list \<Rightarrow> bool \<times> row list" where
  "storage_store e a rows =
     (if storeOk e a then (True, rows @ [toRow a]) else (False, rows))"

definition storage_modify :: "env \<Rightarrow> alert \<Rightarrow> row list \<Rightarrow> bool \<times> row list" where
  "storage_modify e a rows =
     (if modifyOk e a
      then (True, map (\<lambda>r. if rowToken r = getToken a then toRow a else r) rows)
      else (False, rows))"

definition storage_erase :: "env \<Rightarrow> alert \<Rightarrow> row list \<Rightarrow> bool \<times> row list" where
  "storage_erase e a rows =
     (if eraseOk e a
      then (True, filter (\<lambda>r. rowToken r \<noteq> getToken a) rows)
      else (False, rows))"

definition storage_bulkErase :: "env \<Rightarrow> alert list \<Rightarrow> row list \<Rightarrow> bool \<times> row list" where
  "storage_bulkErase e alerts rows =
     (list_all (eraseOk e) alerts,
      filter (\<lambda>r. \<not> list_ex (\<lambda>a. eraseOk e a \<and> rowToken r = getToken a) alerts) rows)"

definition storage_createDatabase :: "env \<Rightarrow> row list \<Rightarrow> bool \<times> row list" where
  "storage_createDatabase e rows =
     (if createDatabaseOk e then (True, []) else (False, rows))"

definition storage_load :: "env \<Rightarrow> row list \<Rightarrow> alert list" where
  "storage_load e rows = (if loadOk e then map fromRow rows else [])"

definition storage_clearDatabase :: "env \<Rightarrow> row list \<Rightarrow> row list" where
  "storage_clearDatabase e rows = (if clearDatabaseOk e then [] else rows)"

text \<open>Modelled from the spec: the single-shot timer (section 4.5). It holds at most
  one pending callback, here the delay and the token and type bound to
  \<^verbatim>\<open>onAlertReady\<close>; a start that yields no valid handle leaves it idle.\<close>

definition timer_isActive :: "scheduler \<Rightarrow> bool" where
  "timer_isActive s = (m_scheduledAlertTimer s \<noteq> None)"

definition timer_stop :: "scheduler \<Rightarrow> scheduler" where
  "timer_stop s = s\<lparr>m_scheduledAlertTimer := None\<rparr>"

definition timer_start :: "env \<Rightarrow> int \<Rightarrow> string \<Rightarrow> string \<Rightarrow> scheduler \<Rightarrow> scheduler" where
  "timer_start e delay alertToken alertType s =
     (if timerStartOk e
      then s\<lparr>m_scheduledAlertTimer :=
               Some \<lparr>taskDelay = delay, taskToken = alertToken, taskType = alertType\<rparr>\<rparr>
      else s)"

text \<open>\<^verbatim>\<open>notifyObserver\<close> submits the observer call to the serial executor; the queue
  keeps submission order. The reason defaults to the empty string.\<close>

definition notifyObserver ::
  "string \<Rightarrow> string \<Rightarrow> observer_state \<Rightarrow> string \<Rightarrow> scheduler \<Rightarrow> scheduler" where
  "notifyObserver alertToken alertType st reason s =
     s\<lparr>m_executor := m_executor s @ [(alertToken, alertType, st, reason)]\<rparr>"

section \<open>Member functions of the scheduler\<close>

definition getAlertLocked :: "scheduler \<Rightarrow> string \<Rightarrow> alert option" where
  "getAlertLocked s tok = find (\<lambda>alert. tok = getToken alert) (m_scheduledAlerts s)"

definition eraseAlert :: "env \<Rightarrow> alert option \<Rightarrow> scheduler \<Rightarrow> scheduler" where
  "eraseAlert e alert s =
     (case alert of
        None \<Rightarrow> s
      | Some a \<Rightarrow>
          (case storage_erase e a (m_alertStorage s) of
             (False, rows) \<Rightarrow> s\<lparr>m_alertStorage := rows\<rparr>
           | (True, rows) \<Rightarrow>
               notifyObserver (getToken a) (getTypeName a) DELETED []
                 (s\<lparr>m_alertStorage := rows\<rparr>)))"

definition deactivateActiveAlertHelperLocked :: "stop_reason \<Rightarrow> scheduler \<Rightarrow> scheduler" where
  "deactivateActiveAlertHelperLocked reason s =
     (case m_activeAlert s of
        None \<Rightarrow> s
      | Some a \<Rightarrow> s\<lparr>m_activeAlert := Some (deactivate reason a)\<rparr>)"

definition setTimerForNextAlertLocked :: "env \<Rightarrow> scheduler \<Rightarrow> scheduler" where
  "setTimerForNextAlertLocked e s =
     (let s1 = (if timer_isActive s then timer_stop s else s) in
      if m_activeAlert s1 \<noteq> None then s1
      else
        (case m_scheduledAlerts s1 of
           [] \<Rightarrow> s1
         | alert # _ \<Rightarrow>
             (case clockAtTimer e of
                None \<Rightarrow> s1
              | Some timeNow \<Rightarrow>
                  (let secondsToWait = int64 (getScheduledTime_Unix alert - timeNow);
                       secondsToWait = (if secondsToWait < 0 then 0 else secondsToWait)
                   in if secondsToWait = 0
                      then notifyObserver (getToken alert) (getTypeName alert) READY [] s1
                      else timer_start e secondsToWait (getToken alert) (getTypeName alert) s1))))"

definition onAlertReady :: "string \<Rightarrow> string \<Rightarrow> scheduler \<Rightarrow> scheduler" where
  "onAlertReady alertToken alertType s = notifyObserver alertToken alertType READY [] s"

definition activateNextAlertLocked :: "scheduler \<Rightarrow> scheduler" where
  "activateNextAlertLocked s =
     (if m_activeAlert s \<noteq> None then s
      else
        (case m_scheduledAlerts s of
           [] \<Rightarrow> s
         | alert # rest \<Rightarrow>
             s\<lparr>m_activeAlert := Some (activate (setFocusState (m_focusState s) alert)),
               m_scheduledAlerts := rest\<rparr>))"

definition isAlertActiveLocked :: "scheduler \<Rightarrow> alert \<Rightarrow> bool" where
  "isAlertActiveLocked s alert =
     (case m_activeAlert s of
        None \<Rightarrow> False
      | Some a \<Rightarrow>
          if getToken a \<noteq> getToken alert then False
          else (getState a = Alert_ACTIVATING \<or> getState a = Alert_ACTIVE))"

text \<open>The body of the \<^verbatim>\<open>FinallyGuard\<close> of \<^verbatim>\<open>updateAlert\<close>, run when the function
  leaves by any path, on the alert as it is then.\<close>

definition finallyGuard :: "env \<Rightarrow> alert \<Rightarrow> scheduler \<Rightarrow> scheduler" where
  "finallyGuard e alert s =
     (let s1 = s\<lparr>m_scheduledAlerts := set_insert alert (m_scheduledAlerts s)\<rparr>
      in if m_activeAlert s1 = None then setTimerForNextAlertLocked e s1 else s1)"

definition updateAlert :: "env \<Rightarrow> alert \<Rightarrow> string \<Rightarrow> scheduler \<Rightarrow> bool \<times> scheduler" where
  "updateAlert e alert newScheduledTime s =
     (let s1 = s\<lparr>m_scheduledAlerts := set_erase alert (m_scheduledAlerts s)\<rparr>;
          oldScheduledTime = getScheduledTime_ISO_8601 alert
      in case updateScheduledTime e newScheduledTime alert of
           (False, alert1) \<Rightarrow> (False, finallyGuard e alert1 s1)
         | (True, alert1) \<Rightarrow>
             (case storage_modify e alert1 (m_alertStorage s1) of
                (False, rows) \<Rightarrow>
                  (let alert2 = snd (updateScheduledTime e oldScheduledTime alert1)
                   in (False, finallyGuard e alert2 (s1\<lparr>m_alertStorage := rows\<rparr>)))
              | (True, rows) \<Rightarrow>
                  (True, finallyGuard e alert1 (s1\<lparr>m_alertStorage := rows\<rparr>))))"

definition scheduleAlert :: "env \<Rightarrow> alert \<Rightarrow> scheduler \<Rightarrow> bool \<times> scheduler" where
  "scheduleAlert e alert s =
     (case clockAtEntry e of
        None \<Rightarrow> (False, s)
      | Some unixEpochNow \<Rightarrow>
          if isPastDue alert unixEpochNow (m_alertPastDueTimeLimit s) then (False, s)
          else
            (case getAlertLocked s (getToken alert) of
               Some oldAlert \<Rightarrow> updateAlert e oldAlert (getScheduledTime_ISO_8601 alert) s
             | None \<Rightarrow>
                 (case storage_store e alert (m_alertStorage s) of
                    (False, rows) \<Rightarrow> (False, s\<lparr>m_alertStorage := rows\<rparr>)
                  | (True, rows) \<Rightarrow>
                      (let alert1 = setObserver (setRenderer alert);
                           s1 = s\<lparr>m_alertStorage := rows,
                                  m_scheduledAlerts := set_insert alert1 (m_scheduledAlerts s)\<rparr>
                       in (True, if m_activeAlert s1 = None
                                 then setTimerForNextAlertLocked e s1 else s1)))))"

text \<open>The body of the loop of \<^verbatim>\<open>initialize\<close> over the loaded alerts.\<close>

definition initializeAlert :: "env \<Rightarrow> int \<Rightarrow> alert \<Rightarrow> scheduler \<Rightarrow> scheduler" where
  "initializeAlert e unixEpochNow alert s =
     (if isPastDue alert unixEpochNow (m_alertPastDueTimeLimit s)
      then eraseAlert e (Some alert)
             (notifyObserver (getToken alert) (getTypeName alert) PAST_DUE [] s)
      else
        (let alert1 = (if getState alert = Alert_ACTIVE then reset alert else alert);
             s1 = (if getState alert = Alert_ACTIVE
                   then s\<lparr>m_alertStorage := snd (storage_modify e alert1 (m_alertStorage s))\<rparr>
                   else s);
             alert2 = setObserver (setRenderer alert1)
         in s1\<lparr>m_scheduledAlerts := set_insert alert2 (m_scheduledAlerts s1)\<rparr>))"

definition initialize :: "env \<Rightarrow> bool \<Rightarrow> scheduler \<Rightarrow> bool \<times> scheduler" where
  "initialize e observer s =
     (if \<not> observer then (False, s)
      else
        (let s1 = s\<lparr>m_observer := True\<rparr>;
             created = (if openOk e then (True, m_alertStorage s1)
                        else storage_createDatabase e (m_alertStorage s1));
             s2 = s1\<lparr>m_alertStorage := snd created\<rparr>
         in if \<not> fst created then (False, s2)
            else
              (case clockAtEntry e of
                 None \<Rightarrow> (False, s2)
               | Some unixEpochNow \<Rightarrow>
                   (let alerts = storage_load e (m_alertStorage s2);
                        s3 = fold (initializeAlert e unixEpochNow) alerts s2
                    in (True, setTimerForNextAlertLocked e s3)))))"

text \<open>The test \<^verbatim>\<open>m_activeAlert && m_activeAlert->getToken() == alertToken\<close>, giving
  the active alert when it holds.\<close>

definition activeAlertWithToken :: "scheduler \<Rightarrow> string \<Rightarrow> alert option" where
  "activeAlertWithToken s alertToken =
     (case m_activeAlert s of
        None \<Rightarrow> None
      | Some a \<Rightarrow> if getToken a = alertToken then Some a else None)"

definition snoozeAlert :: "env \<Rightarrow> string \<Rightarrow> string \<Rightarrow> scheduler \<Rightarrow> bool \<times> scheduler" where
  "snoozeAlert e alertToken updatedTime_ISO_8601 s =
     (case activeAlertWithToken s alertToken of
        None \<Rightarrow> (False, s)
      | Some a \<Rightarrow> (True, s\<lparr>m_activeAlert := Some (snooze e updatedTime_ISO_8601 a)\<rparr>))"

definition deleteAlert :: "env \<Rightarrow> string \<Rightarrow> scheduler \<Rightarrow> bool \<times> scheduler" where
  "deleteAlert e alertToken s =
     (case activeAlertWithToken s alertToken of
        Some a \<Rightarrow> (True, deactivateActiveAlertHelperLocked AVS_STOP s)
      | None \<Rightarrow>
          (case getAlertLocked s alertToken of
             None \<Rightarrow> (True, s)
           | Some alert \<Rightarrow>
               (let s1 = eraseAlert e (Some alert) s;
                    s2 = s1\<lparr>m_scheduledAlerts := set_erase alert (m_scheduledAlerts s1)\<rparr>
                in (True, setTimerForNextAlertLocked e s2))))"

text \<open>The first loop of \<^verbatim>\<open>deleteAlerts\<close>: the flag \<^verbatim>\<open>deleteActiveAlert\<close> and the
  list \<^verbatim>\<open>alertsToBeRemoved\<close>, in the order of the tokens.\<close>

fun collectAlerts :: "scheduler \<Rightarrow> string list \<Rightarrow> bool \<times> alert list \<Rightarrow> bool \<times> alert list" where
  "collectAlerts s [] acc = acc"
| "collectAlerts s (alertToken # rest) (deleteActiveAlert, alertsToBeRemoved) =
     (case activeAlertWithToken s alertToken of
        Some a \<Rightarrow> collectAlerts s rest (True, alertsToBeRemoved @ [a])
      | None \<Rightarrow>
          (case getAlertLocked s alertToken of
             None \<Rightarrow> collectAlerts s rest (deleteActiveAlert, alertsToBeRemoved)
           | Some alert \<Rightarrow>
               collectAlerts s rest (deleteActiveAlert, alertsToBeRemoved @ [alert])))"

text \<open>The body of its second loop.\<close>

definition removeAlert :: "alert \<Rightarrow> scheduler \<Rightarrow> scheduler" where
  "removeAlert alert s =
     notifyObserver (getToken alert) (getTypeName alert) DELETED []
       (s\<lparr>m_scheduledAlerts := set_erase alert (m_scheduledAlerts s)\<rparr>)"

text \<open>
  \<^verbatim>\<open>deleteAlerts\<close> tells the active alert to stop and empties the slot in the next
  statement. The alert object leaves the scheduler there, but it lives on with its
  other owners (the list \<^verbatim>\<open>alertsToBeRemoved\<close> until the call returns, the renderer
  it is bound to). The record cannot show it any more, so the function gives it back,
  as the call leaves it, beside the result and the scheduler.
\<close>

definition deleteAlerts ::
  "env \<Rightarrow> string list \<Rightarrow> scheduler \<Rightarrow> bool \<times> scheduler \<times> alert option" where
  "deleteAlerts e tokenList s =
     (case collectAlerts s tokenList (False, []) of
        (deleteActiveAlert, alertsToBeRemoved) \<Rightarrow>
          (case storage_bulkErase e alertsToBeRemoved (m_alertStorage s) of
             (False, rows) \<Rightarrow> (False, s\<lparr>m_alertStorage := rows\<rparr>, None)
           | (True, rows) \<Rightarrow>
               (let s1 = s\<lparr>m_alertStorage := rows\<rparr>;
                    s2 = (if deleteActiveAlert
                          then deactivateActiveAlertHelperLocked AVS_STOP s1 else s1);
                    released = (if deleteActiveAlert then m_activeAlert s2 else None);
                    s3 = (if deleteActiveAlert then s2\<lparr>m_activeAlert := None\<rparr> else s2);
                    s4 = fold removeAlert alertsToBeRemoved s3
                in (True, setTimerForNextAlertLocked e s4, released))))"

definition isAlertActive :: "scheduler \<Rightarrow> alert \<Rightarrow> bool" where
  "isAlertActive s alert = isAlertActiveLocked s alert"

text \<open>The two focus cases that differ only in the state sent to the observer.\<close>

definition focusEntered :: "observer_state \<Rightarrow> scheduler \<Rightarrow> scheduler" where
  "focusEntered st s =
     (case m_activeAlert s of
        Some a \<Rightarrow>
          notifyObserver (getToken a) (getTypeName a) st []
            (s\<lparr>m_activeAlert := Some (setFocusState (m_focusState s) a)\<rparr>)
      | None \<Rightarrow> activateNextAlertLocked s)"

definition updateFocus :: "focus_state \<Rightarrow> scheduler \<Rightarrow> scheduler" where
  "updateFocus focusState s =
     (if m_focusState s = focusState then s
      else
        (let s1 = s\<lparr>m_focusState := focusState\<rparr>
         in case focusState of
              FOREGROUND \<Rightarrow> focusEntered FOCUS_ENTERED_FOREGROUND s1
            | BACKGROUND \<Rightarrow> focusEntered FOCUS_ENTERED_BACKGROUND s1
            | NONE \<Rightarrow> deactivateActiveAlertHelperLocked LOCAL_STOP s1))"

definition getFocusState_scheduler :: "scheduler \<Rightarrow> focus_state" where
  "getFocusState_scheduler s = m_focusState s"


definition onLocalStop :: "scheduler \<Rightarrow> scheduler" where
  "onLocalStop s = deactivateActiveAlertHelperLocked LOCAL_STOP s"

definition clearData :: "env \<Rightarrow> stop_reason \<Rightarrow> scheduler \<Rightarrow> scheduler" where
  "clearData e reason s =
     (let s1 = deactivateActiveAlertHelperLocked reason s;
          s2 = (if timer_isActive s1 then timer_stop s1 else s1);
          s3 = fold (\<lambda>alert. notifyObserver (getToken alert) (getTypeName alert) DELETED [])
                 (m_scheduledAlerts s2) s2
      in s3\<lparr>m_scheduledAlerts := [],
            m_alertStorage := storage_clearDatabase e (m_alertStorage s3)\<rparr>)"

text \<open>\<^verbatim>\<open>shutdown\<close> drains the executor, stops the timer and releases the observer,
  the active alert and the set. The storage handle is released, not erased: the rows
  stay for the next run.\<close>

definition shutdown :: "scheduler \<Rightarrow> scheduler" where
  "shutdown s =
     (timer_stop s)\<lparr>m_observer := False, m_activeAlert := None, m_scheduledAlerts := []\<rparr>"

text \<open>
  The \<^verbatim>\<open>SNOOZED\<close> case hands \<^verbatim>\<open>m_activeAlert\<close> to the storage and to the set
  without testing it. With an empty slot the pointer is null. The storage finds no row
  for it. The insert compares it with the members of the set, and the comparator
  dereferences both arguments; only into an empty set does it go without a comparison.
  \<^verbatim>\<open>setTimerForNextAlertLocked\<close> then stops the timer, finds the set not empty,
  reads the clock and dereferences the first element in the subtraction. So the call
  returns only when the set was empty and the clock read fails, and the scheduler it
  leaves has a null pointer as the one member of its set. The record has no value for
  such a set: the outcome is a value of its own, which carries the scheduler as it is
  apart from that member.
\<close>

datatype fault = NullAlertDereferenced | NullAlertScheduled scheduler

definition stoppedOrCompleted ::
  "env \<Rightarrow> string \<Rightarrow> string \<Rightarrow> observer_state \<Rightarrow> string \<Rightarrow> scheduler \<Rightarrow> scheduler" where
  "stoppedOrCompleted e alertToken alertType st reason s =
     (let s1 = notifyObserver alertToken alertType st reason s;
          s2 = eraseAlert e (m_activeAlert s1) s1;
          s3 = s2\<lparr>m_activeAlert := None\<rparr>
      in setTimerForNextAlertLocked e s3)"

definition executeOnAlertStateChange ::
  "env \<Rightarrow> string \<Rightarrow> string \<Rightarrow> observer_state \<Rightarrow> string \<Rightarrow> scheduler \<Rightarrow> fault + scheduler" where
  "executeOnAlertStateChange e alertToken alertType st reason s =
     (case st of
        READY \<Rightarrow> Inr (notifyObserver alertToken alertType st reason s)
      | STARTED \<Rightarrow>
          (case m_activeAlert s of
             None \<Rightarrow> Inr s
           | Some a \<Rightarrow>
               if getState a = Alert_ACTIVATING
               then (let a1 = setStateActive a;
                         s1 = s\<lparr>m_activeAlert := Some a1,
                                m_alertStorage := snd (storage_modify e a1 (m_alertStorage s))\<rparr>
                     in Inr (notifyObserver alertToken alertType st reason s1))
               else Inr s)
      | STOPPED \<Rightarrow> Inr (stoppedOrCompleted e alertToken alertType st reason s)
      | COMPLETED \<Rightarrow> Inr (stoppedOrCompleted e alertToken alertType st reason s)
      | SNOOZED \<Rightarrow>
          (case m_activeAlert s of
             None \<Rightarrow>
               if m_scheduledAlerts s \<noteq> [] then Inl NullAlertDereferenced
               else
                 (let s4 = notifyObserver alertToken alertType st reason s;
                      s5 = (if timer_isActive s4 then timer_stop s4 else s4)
                  in case clockAtTimer e of
                       None \<Rightarrow> Inl (NullAlertScheduled s5)
                     | Some timeNow \<Rightarrow> Inl NullAlertDereferenced)
           | Some a \<Rightarrow>
               (let s1 = s\<lparr>m_alertStorage := snd (storage_modify e a (m_alertStorage s))\<rparr>;
                    s2 = s1\<lparr>m_scheduledAlerts := set_insert a (m_scheduledAlerts s1)\<rparr>;
                    s3 = s2\<lparr>m_activeAlert := None\<rparr>;
                    s4 = notifyObserver alertToken alertType st reason s3
                in Inr (setTimerForNextAlertLocked e s4)))
      | PAST_DUE \<Rightarrow> Inr s
      | FOCUS_ENTERED_FOREGROUND \<Rightarrow> Inr s
      | FOCUS_ENTERED_BACKGROUND \<Rightarrow> Inr s
      | DELETED \<Rightarrow> Inr s
      | ERROR \<Rightarrow>
          (let s1 =
             (case activeAlertWithToken s alertToken of
                Some a \<Rightarrow>
                  setTimerForNextAlertLocked e
                    ((eraseAlert e (m_activeAlert s) s)\<lparr>m_activeAlert := None\<rparr>)
              | None \<Rightarrow>
                  (case getAlertLocked s alertToken of
                     None \<Rightarrow> s
                   | Some alert \<Rightarrow>
                       (let s2 = eraseAlert e (Some alert) s;
                            s3 = s2\<lparr>m_scheduledAlerts := set_erase alert (m_scheduledAlerts s2)\<rparr>
                        in setTimerForNextAlertLocked e s3)))
           in Inr (notifyObserver alertToken alertType st reason s1)))"

text \<open>Modelled from the spec: the timer firing. The pending callback runs
  \<^verbatim>\<open>onAlertReady\<close> with the token and type it captured, and the single-shot timer is
  idle afterwards.\<close>

definition timerExpired :: "scheduler \<Rightarrow> scheduler" where
  "timerExpired s =
     (case m_scheduledAlertTimer s of
        None \<Rightarrow> s
      | Some task \<Rightarrow> onAlertReady (taskToken task) (taskType task) (timer_stop s))"

section \<open>The timer-arming steps as the specification words them\<close>

text \<open>The first element of a collection by the order of the comparator: a member that
  no member precedes.\<close>

definition firstByOrder :: "alert list \<Rightarrow> alert option" where
  "firstByOrder xs = find (\<lambda>a. list_all (\<lambda>b. \<not> TimeComparator b a) xs) xs"

text \<open>Steps 1 to 6 of "Timer arming" in the specification, for a clock that reads
  \<open>now\<close>: stop the timer; nothing more with an active alert; nothing more with an
  empty set; take the first element by order and clamp \<open>scheduledTime - now\<close> at zero;
  emit Ready at once for a zero delay; otherwise start the timer with a callback for
  the token and type.\<close>

definition spec_setTimerForNext :: "int \<Rightarrow> scheduler \<Rightarrow> scheduler" where
  "spec_setTimerForNext now s =
     (let s1 = s\<lparr>m_scheduledAlertTimer := None\<rparr>
      in if m_activeAlert s \<noteq> None then s1
         else if m_scheduledAlerts s = [] then s1
         else
           (case firstByOrder (m_scheduledAlerts s) of
              None \<Rightarrow> s1
            | Some a \<Rightarrow>
                (let delta = max 0 (getScheduledTime_Unix a - now)
                 in if delta = 0
                    then s1\<lparr>m_executor :=
                              m_executor s1 @ [(getToken a, getTypeName a, READY, [])]\<rparr>
                    else s1\<lparr>m_scheduledAlertTimer :=
                              Some \<lparr>taskDelay = delta, taskToken = getToken a,
                                    taskType = getTypeName a\<rparr>\<rparr>)))"

section \<open>What one call of the timer-arming function leaves behind\<close>

definition readyFor :: "env \<Rightarrow> alert option \<Rightarrow> alert list \<Rightarrow> notification list" where
  "readyFor e active scheduled =
     (case (active, scheduled, clockAtTimer e) of
        (None, alert # _, Some timeNow) \<Rightarrow>
          if int64 (getScheduledTime_Unix alert - timeNow) \<le> 0
          then [(getToken alert, getTypeName alert, READY, [])] else []
      | _ \<Rightarrow> [])"

definition armedFor :: "env \<Rightarrow> alert option \<Rightarrow> alert list \<Rightarrow> timer_task option" where
  "armedFor e active scheduled =
     (case (active, scheduled, clockAtTimer e) of
        (None, alert # _, Some timeNow) \<Rightarrow>
          if 0 < int64 (getScheduledTime_Unix alert - timeNow) \<and> timerStartOk e
          then Some \<lparr>taskDelay = int64 (getScheduledTime_Unix alert - timeNow),
                      taskToken = getToken alert, taskType = getTypeName alert\<rparr>
          else None
      | _ \<Rightarrow> None)"

definition notifiedState :: "notification \<Rightarrow> observer_state" where
  "notifiedState n = fst (snd (snd n))"

definition notifiedToken :: "notification \<Rightarrow> string" where
  "notifiedToken n = fst n"

section \<open>Concrete alerts, answers and schedulers\<close>

definition example_convert8601 :: "string \<Rightarrow> int option" where
  "example_convert8601 =
     map_of [(''1970-01-01T00:15:00Z'', 900), (''1970-01-01T00:18:20Z'', 1100),
             (''1970-01-01T00:20:00Z'', 1200), (''1970-01-01T00:21:40Z'', 1300)]"

text \<open>Every collaborator answers with success; both clock reads give 1000.\<close>

definition example_env :: env where
  "example_env =
     \<lparr> clockAtEntry = Some 1000, clockAtTimer = Some 1000,
       convert8601 = example_convert8601,
       openOk = True, createDatabaseOk = True, loadOk = True,
       storeOk = (\<lambda>a. True), modifyOk = (\<lambda>a. True), eraseOk = (\<lambda>a. True),
       clearDatabaseOk = True, timerStartOk = True \<rparr>"

definition example_alert :: "string \<Rightarrow> string \<Rightarrow> int \<Rightarrow> alert" where
  "example_alert tok isoTime unix =
     \<lparr> getToken = tok, getTypeName = ''ALARM'',
       getScheduledTime_ISO_8601 = isoTime, getScheduledTime_Unix = unix,
       getState = Alert_SET, getStopReason = None, getFocusState = NONE,
       hasRenderer = False, hasObserver = False \<rparr>"

definition alertA :: alert where
  "alertA = example_alert ''A'' ''1970-01-01T00:18:20Z'' 1100"

definition alertB :: alert where
  "alertB = example_alert ''B'' ''1970-01-01T00:20:00Z'' 1200"

text \<open>A scheduler holding A and B in its set and their rows in storage, idle timer.\<close>

definition example_two :: scheduler where
  "example_two =
     (AlertScheduler [toRow alertA, toRow alertB] 30)
       \<lparr>m_observer := True, m_scheduledAlerts := [alertA, alertB]\<rparr>"

text \<open>The same with A promoted to the active slot.\<close>

definition example_active :: scheduler where
  "example_active =
     example_two\<lparr>m_activeAlert := Some (activate (setFocusState FOREGROUND alertA)),
                  m_scheduledAlerts := [alertB], m_focusState := FOREGROUND\<rparr>"

section \<open>Alerts matched by a token\<close>

text \<open>The alert a token stands for in both loops of \<^verbatim>\<open>deleteAlerts\<close>: the active
  alert when it has the token, else the first scheduled alert that has it.\<close>

definition matchedAlert :: "scheduler \<Rightarrow> string \<Rightarrow> alert option" where
  "matchedAlert s tok =
     (case activeAlertWithToken s tok of
        Some a \<Rightarrow> Some a
      | None \<Rightarrow> getAlertLocked s tok)"

definition deletedNote :: "alert \<Rightarrow> notification" where
  "deletedNote a = (getToken a, getTypeName a, DELETED, [])"

section \<open>What initialize makes of one loaded alert\<close>

text \<open>The alert as \<^verbatim>\<open>initialize\<close> inserts it: reset when it was loaded Active, then
  bound to the renderer and to the scheduler as observer.\<close>

definition loadedAlert :: "alert \<Rightarrow> alert" where
  "loadedAlert a =
     setObserver (setRenderer (if getState a = Alert_ACTIVE then reset a else a))"

text \<open>What the loop body queues and what it does to the rows, for one alert.\<close>

definition pastDueNotes :: "env \<Rightarrow> int \<Rightarrow> int \<Rightarrow> alert \<Rightarrow> notification list" where
  "pastDueNotes e now limit a =
     (if isPastDue a now limit
      then (getToken a, getTypeName a, PAST_DUE, [])
           # (if eraseOk e a then [deletedNote a] else [])
      else [])"

definition loadedRows :: "env \<Rightarrow> int \<Rightarrow> int \<Rightarrow> alert \<Rightarrow> row list \<Rightarrow> row list" where
  "loadedRows e now limit a rows =
     (if isPastDue a now limit then snd (storage_erase e a rows)
      else if getState a = Alert_ACTIVE then snd (storage_modify e (reset a) rows)
      else rows)"

text \<open>Rows left by an earlier run: C is ten minutes old at 1000 with a tolerance of 30
  seconds, D is due at 1200 and was Active when the device went down.\<close>

definition rowC :: row where
  "rowC = \<lparr> rowToken = ''C'', rowTypeName = ''ALARM'',
             rowTime_ISO_8601 = ''1970-01-01T00:06:40Z'', rowTime_Unix = 400,
             rowState = Alert_SET \<rparr>"

definition rowD :: row where
  "rowD = \<lparr> rowToken = ''D'', rowTypeName = ''TIMER'',
             rowTime_ISO_8601 = ''1970-01-01T00:20:00Z'', rowTime_Unix = 1200,
             rowState = Alert_ACTIVE \<rparr>"

definition example_boot :: scheduler where
  "example_boot = AlertScheduler [rowC, rowD] 30"

section \<open>Sequences of calls\<close>

text \<open>The public member functions that change the scheduler, the event the executor
  dispatches to \<^verbatim>\<open>executeOnAlertStateChange\<close> and the expiry of the timer. The
  read-only member functions leave the scheduler as it is and are not listed;
  \<^verbatim>\<open>shutdown\<close> ends the life of the object and is applied last.\<close>

datatype operation =
    Initialize bool
  | ScheduleAlert alert
  | SnoozeAlert string string
  | DeleteAlert string
  | DeleteAlerts "string list"
  | UpdateFocus focus_state
  | OnLocalStop
  | ClearData stop_reason
  | ExecuteOnAlertStateChange string string observer_state string
  | TimerExpired

fun perform :: "env \<Rightarrow> operation \<Rightarrow> scheduler \<Rightarrow> fault + scheduler" where
  "perform e (Initialize observer) s = Inr (snd (initialize e observer s))"
| "perform e (ScheduleAlert alert) s = Inr (snd (scheduleAlert e alert s))"
| "perform e (SnoozeAlert alertToken updatedTime) s =
     Inr (snd (snoozeAlert e alertToken updatedTime s))"
| "perform e (DeleteAlert alertToken) s = Inr (snd (deleteAlert e alertToken s))"
| "perform e (DeleteAlerts tokenList) s = Inr (fst (snd (deleteAlerts e tokenList s)))"
| "perform e (UpdateFocus focusState) s = Inr (updateFocus focusState s)"
| "perform e OnLocalStop s = Inr (onLocalStop s)"
| "perform e (ClearData reason) s = Inr (clearData e reason s)"
| "perform e (ExecuteOnAlertStateChange alertToken alertType st reason) s =
     executeOnAlertStateChange e alertToken alertType st reason s"
| "perform e TimerExpired s = Inr (timerExpired s)"

text \<open>The schedulers that a sequence of calls can produce from a constructed one,
  whatever the collaborators answer in each call.\<close>

inductive reachable :: "scheduler \<Rightarrow> bool" where
  constructed: "reachable (AlertScheduler alertStorage alertPastDueTimeLimit)"
| performed: "reachable s \<Longrightarrow> perform e op s = Inr s' \<Longrightarrow> reachable s'"

text \<open>A focus change that makes \<^verbatim>\<open>activateNextAlertLocked\<close> promote a scheduled
  alert while the timer holds a pending callback.\<close>

definition promotesWhileArmed :: "operation \<Rightarrow> scheduler \<Rightarrow> bool" where
  "promotesWhileArmed op s =
     (case op of
        UpdateFocus focusState \<Rightarrow>
          focusState \<noteq> NONE \<and> focusState \<noteq> m_focusState s \<and> m_activeAlert s = None
          \<and> m_scheduledAlerts s \<noteq> [] \<and> timer_isActive s
      | _ \<Rightarrow> False)"

text \<open>The schedulers produced by sequences in which no focus change promotes an alert
  while the timer is armed.\<close>

inductive reachableIdle :: "scheduler \<Rightarrow> bool" where
  constructedIdle: "reachableIdle (AlertScheduler alertStorage alertPastDueTimeLimit)"
| performedIdle:
    "reachableIdle s \<Longrightarrow> \<not> promotesWhileArmed op s \<Longrightarrow> perform e op s = Inr s'
     \<Longrightarrow> reachableIdle s'"

definition timerIdleWhileActive :: "scheduler \<Rightarrow> bool" where
  "timerIdleWhileActive s = (m_activeAlert s = None \<or> \<not> timer_isActive s)"

text \<open>A fresh scheduler; A scheduled on it (the timer is armed for 100 seconds); then
  either the focus arrives at once, or the timer fires first and the focus arrives
  afterwards.\<close>

definition example_fresh :: scheduler where
  "example_fresh = AlertScheduler [] 30"

definition example_scheduled :: scheduler where
  "example_scheduled = snd (scheduleAlert example_env alertA example_fresh)"

definition example_promoted_armed :: scheduler where
  "example_promoted_armed = updateFocus FOREGROUND example_scheduled"

definition example_promoted_idle :: scheduler where
  "example_promoted_idle = updateFocus FOREGROUND (timerExpired example_scheduled)"

section \<open>Memory and storage\<close>










section \<open>Two alerts under one token\<close>

text \<open>At most one scheduled alert carries the token.\<close>

definition tokenScheduledOnce :: "scheduler \<Rightarrow> string \<Rightarrow> bool" where
  "tokenScheduledOnce s tok =
     (length (filter (\<lambda>a. getToken a = tok) (m_scheduledAlerts s)) \<le> 1)"

text \<open>While A is active, an alert with the token of A and a later time is scheduled:
  \<^verbatim>\<open>getAlertLocked\<close> looks in the set only, so the alert is stored as a new one. A is
  then snoozed to 1200, and its Snoozed event puts it back into the set, beside the
  other.\<close>

definition alertA_later :: alert where
  "alertA_later = example_alert ''A'' ''1970-01-01T00:21:40Z'' 1300"

definition example_rescheduled :: scheduler where
  "example_rescheduled = snd (scheduleAlert example_env alertA_later example_promoted_idle)"

definition example_snoozing :: scheduler where
  "example_snoozing =
     snd (snoozeAlert example_env ''A'' ''1970-01-01T00:20:00Z'' example_rescheduled)"

definition example_twins :: scheduler where
  "example_twins =
     projr (executeOnAlertStateChange example_env ''A'' ''ALARM'' SNOOZED [] example_snoozing)"

section \<open>Properties of the ordered set and of the helpers\<close>

lemma TimeComparator_irrefl: "\<not> TimeComparator a a"
  by (simp add: TimeComparator_def)

lemma TimeComparator_asym: "TimeComparator a b \<Longrightarrow> \<not> TimeComparator b a"
  by (auto simp: TimeComparator_def split: if_splits)

lemma TimeComparator_trans:
  "TimeComparator a b \<Longrightarrow> TimeComparator b c \<Longrightarrow> TimeComparator a c"
  by (auto simp: TimeComparator_def split: if_splits)

lemma equivalent_iff:
  "equivalent a b \<longleftrightarrow>
     getScheduledTime_Unix a = getScheduledTime_Unix b \<and> getToken a = getToken b"
  by (auto simp: equivalent_def TimeComparator_def)

lemma firstByOrder_sorted:
  "sorted_wrt TimeComparator (x # xs) \<Longrightarrow> firstByOrder (x # xs) = Some x"
  by (auto simp: firstByOrder_def TimeComparator_irrefl list_all_iff dest: TimeComparator_asym)

lemma set_set_insert: "set (set_insert a xs) \<subseteq> insert a (set xs)"
  by (induction xs) auto

lemma sorted_set_insert:
  "sorted_wrt TimeComparator xs \<Longrightarrow> sorted_wrt TimeComparator (set_insert a xs)"
proof (induction xs)
  case Nil
  then show ?case by simp
next
  case (Cons b bs)
  have "x = a \<or> x \<in> set bs" if "x \<in> set (set_insert a bs)" for x
    using that set_set_insert [of a bs] by auto
  with Cons show ?case
    by (auto dest: TimeComparator_trans)
qed

lemma sorted_set_erase:
  "sorted_wrt TimeComparator xs \<Longrightarrow> sorted_wrt TimeComparator (set_erase a xs)"
  by (simp add: set_erase_def sorted_wrt_filter)

lemma set_erase_self: "a \<notin> set (set_erase a xs)"
  by (simp add: set_erase_def equivalent_iff)

lemma int64_fits: "fitsInt64 x \<Longrightarrow> int64 x = x"
  by (simp add: int64_def fitsInt64_def)

lemma int64_small [simp]:
  "- 9223372036854775808 \<le> x \<Longrightarrow> x < 9223372036854775808 \<Longrightarrow> int64 x = x"
  by (simp add: int64_def)

lemma stop_when_active: "(if timer_isActive s then timer_stop s else s) = timer_stop s"
  by (simp add: timer_isActive_def timer_stop_def)

lemma setTimer_eq:
  "setTimerForNextAlertLocked e s =
     s\<lparr>m_scheduledAlertTimer := armedFor e (m_activeAlert s) (m_scheduledAlerts s),
       m_executor := m_executor s @ readyFor e (m_activeAlert s) (m_scheduledAlerts s)\<rparr>"
  by (simp add: setTimerForNextAlertLocked_def stop_when_active timer_stop_def readyFor_def
      armedFor_def timer_start_def notifyObserver_def Let_def split: list.split option.split)

lemma eraseAlert_eq:
  "eraseAlert e x s =
     s\<lparr>m_alertStorage :=
         (case x of None \<Rightarrow> m_alertStorage s
          | Some a \<Rightarrow> snd (storage_erase e a (m_alertStorage s))),
       m_executor := m_executor s @
         (case x of None \<Rightarrow> []
          | Some a \<Rightarrow> if eraseOk e a then [(getToken a, getTypeName a, DELETED, [])] else [])\<rparr>"
  by (simp add: eraseAlert_def storage_erase_def notifyObserver_def split: option.split)

lemma stoppedOrCompleted_eq:
  "stoppedOrCompleted e tok ty st reason s =
     s\<lparr>m_activeAlert := None,
       m_alertStorage :=
          (case m_activeAlert s of
             None \<Rightarrow> m_alertStorage s
           | Some a \<Rightarrow> snd (storage_erase e a (m_alertStorage s))),
       m_scheduledAlertTimer := armedFor e None (m_scheduledAlerts s),
       m_executor := m_executor s @ [(tok, ty, st, reason)] @
          (case m_activeAlert s of
             None \<Rightarrow> []
           | Some a \<Rightarrow> if eraseOk e a then [(getToken a, getTypeName a, DELETED, [])] else [])
          @ readyFor e None (m_scheduledAlerts s)\<rparr>"
  by (simp add: stoppedOrCompleted_def Let_def notifyObserver_def setTimer_eq eraseAlert_eq
      cong: option.case_cong)

lemma snoozed_returns:
  assumes "executeOnAlertStateChange e tok ty SNOOZED r s = Inr s'"
  obtains a where "m_activeAlert s = Some a"
    and "s' = setTimerForNextAlertLocked e
      (notifyObserver tok ty SNOOZED r
        (s\<lparr>m_alertStorage := snd (storage_modify e a (m_alertStorage s)),
           m_scheduledAlerts := set_insert a (m_scheduledAlerts s),
           m_activeAlert := None\<rparr>))"
proof (cases "m_activeAlert s")
  case None
  with assms show ?thesis
    by (simp add: executeOnAlertStateChange_def Let_def split: if_splits option.splits)
next
  case (Some a)
  with assms that [of a] show ?thesis
    by (simp add: executeOnAlertStateChange_def Let_def)
qed

lemmas example_defs =
  example_env_def example_convert8601_def example_alert_def alertA_def alertB_def
  example_two_def example_active_def AlertScheduler_def toRow_def

lemma example_scheduled_eq:
  "example_scheduled =
     \<lparr> m_alertPastDueTimeLimit = 30, m_observer = False,
       m_alertStorage = [toRow alertA], m_activeAlert = None,
       m_scheduledAlerts = [setObserver (setRenderer alertA)],
       m_focusState = NONE,
       m_scheduledAlertTimer = Some \<lparr>taskDelay = 100, taskToken = ''A'', taskType = ''ALARM''\<rparr>,
       m_executor = [] \<rparr>"
  by (simp add: example_scheduled_def example_fresh_def scheduleAlert_def isPastDue_def
      getAlertLocked_def storage_store_def Let_def setTimer_eq armedFor_def readyFor_def
      setObserver_def setRenderer_def example_env_def example_alert_def alertA_def
      AlertScheduler_def)

lemma example_promoted_idle_eq:
  "example_promoted_idle =
     \<lparr> m_alertPastDueTimeLimit = 30, m_observer = False,
       m_alertStorage = [toRow alertA],
       m_activeAlert = Some (activate (setFocusState FOREGROUND (setObserver (setRenderer alertA)))),
       m_scheduledAlerts = [],
       m_focusState = FOREGROUND,
       m_scheduledAlertTimer = None,
       m_executor = [(''A'', ''ALARM'', READY, [])] \<rparr>"
  by (simp add: example_promoted_idle_def example_scheduled_eq timerExpired_def timer_stop_def
      onAlertReady_def notifyObserver_def updateFocus_def focusEntered_def
      activateNextAlertLocked_def)

lemma alertA_token:
  "getToken alertA = ''A''" "rowToken (toRow alertA) = ''A''"
  "getToken (setObserver (setRenderer alertA)) = ''A''"
  "getToken (activate (setFocusState FOREGROUND (setObserver (setRenderer alertA)))) = ''A''"
  by (simp_all add: alertA_def example_alert_def toRow_def setObserver_def setRenderer_def
      activate_def setFocusState_def)

section \<open>Timer arming\<close>

text \<open>
  Claim C8. On a scheduled set kept in the order of its comparator, with a clock that
  reads \<open>now\<close>, a timer that starts, and scheduled times whose distance from \<open>now\<close>
  fits the 64-bit integer that holds it, \<^const>\<open>setTimerForNextAlertLocked\<close> does
  exactly the steps of the specification: it stops the timer, does nothing more when
  an alert is active or the set is empty, and otherwise takes the first alert by
  (scheduled time, token), clamps \<open>scheduledTime - now\<close> at zero, emits Ready for that
  alert at once without starting the timer when the delay is zero, and starts the
  timer for the delay with the alert's token and type when it is positive.
\<close>

theorem setTimerForNextAlertLocked_refines_spec:
  assumes "sorted_wrt TimeComparator (m_scheduledAlerts s)"
    and "clockAtTimer e = Some now"
    and "timerStartOk e"
    and "\<forall>a \<in> set (m_scheduledAlerts s). fitsInt64 (getScheduledTime_Unix a - now)"
  shows "setTimerForNextAlertLocked e s = spec_setTimerForNext now s"
proof (cases "m_scheduledAlerts s")
  case Nil
  then show ?thesis
    by (simp add: setTimerForNextAlertLocked_def spec_setTimerForNext_def stop_when_active
        timer_stop_def Let_def)
next
  case (Cons x xs)
  with assms(1) have "firstByOrder (m_scheduledAlerts s) = Some x"
    by (simp add: firstByOrder_sorted)
  moreover from Cons assms(4) have "int64 (getScheduledTime_Unix x - now) =
      getScheduledTime_Unix x - now"
    by (simp add: int64_fits)
  ultimately show ?thesis
    using Cons assms(2,3)
    by (simp add: setTimerForNextAlertLocked_def spec_setTimerForNext_def stop_when_active
        timer_stop_def timer_start_def notifyObserver_def Let_def max_def)
qed

theorem setTimerForNextAlertLocked_refines_spec_witness:
  "sorted_wrt TimeComparator (m_scheduledAlerts example_two) \<and>
   clockAtTimer example_env = Some 1000 \<and> timerStartOk example_env \<and>
   fitsInt64 (getScheduledTime_Unix alertA - 1000) \<and>
   fitsInt64 (getScheduledTime_Unix alertB - 1000) \<and>
   setTimerForNextAlertLocked example_env example_two = spec_setTimerForNext 1000 example_two \<and>
   m_scheduledAlertTimer (setTimerForNextAlertLocked example_env example_two) =
     Some \<lparr>taskDelay = 100, taskToken = ''A'', taskType = ''ALARM''\<rparr>"
proof -
  have f: "fitsInt64 (getScheduledTime_Unix alertA - 1000)"
    "fitsInt64 (getScheduledTime_Unix alertB - 1000)"
    by (simp_all add: fitsInt64_def example_defs)
  have h: "sorted_wrt TimeComparator (m_scheduledAlerts example_two)"
    "clockAtTimer example_env = Some 1000" "timerStartOk example_env"
    "\<forall>a \<in> set (m_scheduledAlerts example_two). fitsInt64 (getScheduledTime_Unix a - 1000)"
    using f by (simp_all add: example_two_def AlertScheduler_def TimeComparator_def
        example_env_def alertA_def alertB_def example_alert_def)
  have "m_scheduledAlertTimer (spec_setTimerForNext 1000 example_two) =
     Some \<lparr>taskDelay = 100, taskToken = ''A'', taskType = ''ALARM''\<rparr>"
    by (simp add: spec_setTimerForNext_def firstByOrder_def example_defs TimeComparator_def)
  with f h(1-3) setTimerForNextAlertLocked_refines_spec [OF h] show ?thesis
    by simp
qed

text \<open>Outside that range the subtraction wraps: an alert scheduled for the largest
  64-bit second, read against a clock before the epoch, gives a negative difference,
  which is clamped to zero, and Ready is queued at once.\<close>

lemma setTimerForNextAlertLocked_wraps:
  "setTimerForNextAlertLocked (example_env\<lparr>clockAtTimer := Some (- 1000)\<rparr>)
     ((AlertScheduler [] 30)
        \<lparr>m_scheduledAlerts := [example_alert ''A'' ''far'' 9223372036854775807]\<rparr>) =
   (AlertScheduler [] 30)
     \<lparr>m_scheduledAlerts := [example_alert ''A'' ''far'' 9223372036854775807],
      m_executor := [(''A'', ''ALARM'', READY, [])]\<rparr>"
  by (simp add: setTimer_eq armedFor_def readyFor_def int64_def example_env_def
      example_alert_def AlertScheduler_def)

section \<open>Deleting one alert\<close>

text \<open>
  Claim C9. \<^const>\<open>deleteAlert\<close> returns success for every token, every scheduler and
  every answer of the collaborators. When the token matches a scheduled alert (not the
  active one) and the storage erase of that alert fails, the alert is removed from the
  scheduled set all the same, the rows are as before, and the queue to the observer
  gains no Deleted notification.
\<close>

theorem deleteAlert_returns_true_and_drops_alert:
  "fst (deleteAlert e alertToken s) = True \<and>
   (activeAlertWithToken s alertToken = None \<and>
    getAlertLocked s alertToken = Some alert \<and> \<not> eraseOk e alert \<longrightarrow>
      alert \<notin> set (m_scheduledAlerts (snd (deleteAlert e alertToken s))) \<and>
      m_alertStorage (snd (deleteAlert e alertToken s)) = m_alertStorage s \<and>
      filter (\<lambda>n. notifiedState n = DELETED) (m_executor (snd (deleteAlert e alertToken s))) =
      filter (\<lambda>n. notifiedState n = DELETED) (m_executor s))"
proof -
  have r: "fst (deleteAlert e alertToken s) = True"
    by (simp add: deleteAlert_def Let_def split: option.split)
  have f: "alert \<notin> set (m_scheduledAlerts (snd (deleteAlert e alertToken s))) \<and>
      m_alertStorage (snd (deleteAlert e alertToken s)) = m_alertStorage s \<and>
      filter (\<lambda>n. notifiedState n = DELETED) (m_executor (snd (deleteAlert e alertToken s))) =
      filter (\<lambda>n. notifiedState n = DELETED) (m_executor s)"
    if "activeAlertWithToken s alertToken = None" "getAlertLocked s alertToken = Some alert"
      "\<not> eraseOk e alert"
    using that
    by (auto simp: deleteAlert_def Let_def eraseAlert_eq set_erase_self setTimer_eq
        storage_erase_def readyFor_def notifiedState_def
        split: option.splits list.splits if_splits)
  from r f show ?thesis by blast
qed

theorem deleteAlert_returns_true_and_drops_alert_witness:
  "activeAlertWithToken example_two ''A'' = None \<and>
   getAlertLocked example_two ''A'' = Some alertA \<and>
   \<not> eraseOk (example_env\<lparr>eraseOk := \<lambda>a. False\<rparr>) alertA \<and>
   fst (deleteAlert (example_env\<lparr>eraseOk := \<lambda>a. False\<rparr>) ''A'' example_two) = True \<and>
   alertA \<notin> set (m_scheduledAlerts
      (snd (deleteAlert (example_env\<lparr>eraseOk := \<lambda>a. False\<rparr>) ''A'' example_two))) \<and>
   m_alertStorage (snd (deleteAlert (example_env\<lparr>eraseOk := \<lambda>a. False\<rparr>) ''A'' example_two))
     = [toRow alertA, toRow alertB]"
proof -
  have h: "activeAlertWithToken example_two ''A'' = None"
    "getAlertLocked example_two ''A'' = Some alertA"
    "\<not> eraseOk (example_env\<lparr>eraseOk := \<lambda>a. False\<rparr>) alertA"
    by (simp_all add: activeAlertWithToken_def getAlertLocked_def example_defs)
  have "m_alertStorage example_two = [toRow alertA, toRow alertB]"
    by (simp add: example_two_def AlertScheduler_def)
  with h deleteAlert_returns_true_and_drops_alert
    [of "example_env\<lparr>eraseOk := \<lambda>a. False\<rparr>" "''A''" example_two alertA]
  show ?thesis by simp
qed

section \<open>The Stopped and Completed events\<close>

text \<open>
  Claim C10. For an inbound Stopped or Completed event the handler never looks at the
  token of the event: whatever alert is in the active slot has its row erased (when the
  storage erase succeeds) and the slot is cleared; with an empty slot the rows are
  untouched. The timer is then re-armed as \<^const>\<open>setTimerForNextAlertLocked\<close> arms
  it for a scheduler with an empty slot. Two such events, whatever their tokens, types,
  reasons and whichever of the two states, lead to schedulers that differ only in the
  one notification that forwards the event to the observer.
\<close>

theorem stopped_and_completed_clear_the_active_slot:
  assumes "st = STOPPED \<or> st = COMPLETED" and "st' = STOPPED \<or> st' = COMPLETED"
  shows "\<exists>s1 s2 rest.
     executeOnAlertStateChange e tok ty st reason s = Inr s1 \<and>
     executeOnAlertStateChange e tok' ty' st' reason' s = Inr s2 \<and>
     m_activeAlert s1 = None \<and>
     m_scheduledAlerts s1 = m_scheduledAlerts s \<and>
     (m_activeAlert s = None \<longrightarrow> m_alertStorage s1 = m_alertStorage s) \<and>
     (\<forall>a. m_activeAlert s = Some a \<and> eraseOk e a \<longrightarrow>
        m_alertStorage s1 = filter (\<lambda>r. rowToken r \<noteq> getToken a) (m_alertStorage s)) \<and>
     m_scheduledAlertTimer s1 =
       m_scheduledAlertTimer (setTimerForNextAlertLocked e (s\<lparr>m_activeAlert := None\<rparr>)) \<and>
     m_executor s1 = m_executor s @ [(tok, ty, st, reason)] @ rest \<and>
     m_executor s2 = m_executor s @ [(tok', ty', st', reason')] @ rest \<and>
     s2 = s1\<lparr>m_executor := m_executor s2\<rparr>"
proof -
  have 1: "executeOnAlertStateChange e tok ty st reason s =
      Inr (stoppedOrCompleted e tok ty st reason s)"
    using assms(1) by (auto simp: executeOnAlertStateChange_def)
  have 2: "executeOnAlertStateChange e tok' ty' st' reason' s =
      Inr (stoppedOrCompleted e tok' ty' st' reason' s)"
    using assms(2) by (auto simp: executeOnAlertStateChange_def)
  show ?thesis
    unfolding 1 2
    by (simp add: stoppedOrCompleted_eq setTimer_eq storage_erase_def)
qed

theorem stopped_and_completed_clear_the_active_slot_witness:
  "\<exists>s1 s2.
     executeOnAlertStateChange example_env ''other'' ''TIMER'' STOPPED [] example_active = Inr s1 \<and>
     executeOnAlertStateChange example_env ''A'' ''ALARM'' COMPLETED [] example_active = Inr s2 \<and>
     m_activeAlert s1 = None \<and>
     m_alertStorage s1 = [toRow alertB] \<and>
     m_scheduledAlertTimer s1 = Some \<lparr>taskDelay = 200, taskToken = ''B'', taskType = ''ALARM''\<rparr> \<and>
     s2 = s1\<lparr>m_executor := m_executor s2\<rparr>"
proof -
  obtain s1 s2 rest where
    r: "executeOnAlertStateChange example_env ''other'' ''TIMER'' STOPPED [] example_active = Inr s1"
       "executeOnAlertStateChange example_env ''A'' ''ALARM'' COMPLETED [] example_active = Inr s2"
       "m_activeAlert s1 = None"
       "s2 = s1\<lparr>m_executor := m_executor s2\<rparr>"
    and st: "\<forall>a. m_activeAlert example_active = Some a \<and> eraseOk example_env a \<longrightarrow>
        m_alertStorage s1 =
          filter (\<lambda>r. rowToken r \<noteq> getToken a) (m_alertStorage example_active)"
    and tm: "m_scheduledAlertTimer s1 =
       m_scheduledAlertTimer
         (setTimerForNextAlertLocked example_env (example_active\<lparr>m_activeAlert := None\<rparr>))"
    using stopped_and_completed_clear_the_active_slot
      [of STOPPED COMPLETED example_env "''other''" "''TIMER''" "[]" example_active
          "''A''" "''ALARM''" "[]"]
    by auto
  from st have "m_alertStorage s1 = [toRow alertB]"
    by (simp add: example_defs activate_def setFocusState_def)
  moreover from tm have "m_scheduledAlertTimer s1 =
      Some \<lparr>taskDelay = 200, taskToken = ''B'', taskType = ''ALARM''\<rparr>"
    by (simp add: setTimer_eq armedFor_def example_defs)
  ultimately show ?thesis
    using r by blast
qed

section \<open>Scheduling an alert\<close>


lemma updateScheduledTime_token:
  "getToken (snd (updateScheduledTime e t a)) = getToken a"
  by (simp add: updateScheduledTime_def split: option.split)

lemma finallyGuard_storage:
  "m_alertStorage (finallyGuard e a s) = m_alertStorage s"
  by (simp add: finallyGuard_def Let_def setTimer_eq)

lemma updateAlert_rowTokens:
  "map rowToken (m_alertStorage (snd (updateAlert e a t s))) = map rowToken (m_alertStorage s)"
  by (auto simp: updateAlert_def Let_def storage_modify_def toRow_def finallyGuard_storage
      updateScheduledTime_def split: prod.split option.split bool.split if_splits)

text \<open>
  Claim C5. With a clock that can be read: an alert whose scheduled time precedes
  \<open>now\<close> minus the past-due tolerance is rejected, \<^const>\<open>scheduleAlert\<close> returns
  failure and the scheduler, its rows included, is exactly as before. An alert that is
  not past due and whose token is the token of an alert \<open>oldAlert\<close> found in the
  scheduled set is not stored: the call is the call of \<^const>\<open>updateAlert\<close> on
  \<open>oldAlert\<close> with the new alert's scheduled time, and the rows afterwards carry the
  same tokens, one for one, as before.
\<close>

theorem scheduleAlert_rejects_past_due_and_routes_to_update:
  assumes "clockAtEntry e = Some now"
  shows "(isPastDue alert now (m_alertPastDueTimeLimit s) \<longrightarrow>
            scheduleAlert e alert s = (False, s)) \<and>
         (\<not> isPastDue alert now (m_alertPastDueTimeLimit s) \<and>
          getAlertLocked s (getToken alert) = Some oldAlert \<longrightarrow>
            scheduleAlert e alert s =
              updateAlert e oldAlert (getScheduledTime_ISO_8601 alert) s \<and>
            map rowToken (m_alertStorage (snd (scheduleAlert e alert s))) =
              map rowToken (m_alertStorage s))"
  using assms by (simp add: scheduleAlert_def updateAlert_rowTokens)

theorem scheduleAlert_rejects_past_due_and_routes_to_update_witness:
  "clockAtEntry example_env = Some 1000 \<and>
   isPastDue (example_alert ''C'' ''1970-01-01T00:15:00Z'' 900) 1000
     (m_alertPastDueTimeLimit example_two) \<and>
   scheduleAlert example_env (example_alert ''C'' ''1970-01-01T00:15:00Z'' 900) example_two =
     (False, example_two) \<and>
   \<not> isPastDue (example_alert ''A'' ''1970-01-01T00:21:40Z'' 1300) 1000
     (m_alertPastDueTimeLimit example_two) \<and>
   getAlertLocked example_two (getToken (example_alert ''A'' ''1970-01-01T00:21:40Z'' 1300)) =
     Some alertA \<and>
   scheduleAlert example_env (example_alert ''A'' ''1970-01-01T00:21:40Z'' 1300) example_two =
     updateAlert example_env alertA ''1970-01-01T00:21:40Z'' example_two"
proof -
  have c: "clockAtEntry example_env = Some 1000"
    by (simp add: example_env_def)
  have p: "isPastDue (example_alert ''C'' ''1970-01-01T00:15:00Z'' 900) 1000
      (m_alertPastDueTimeLimit example_two)"
    "\<not> isPastDue (example_alert ''A'' ''1970-01-01T00:21:40Z'' 1300) 1000
      (m_alertPastDueTimeLimit example_two)"
    "getAlertLocked example_two (getToken (example_alert ''A'' ''1970-01-01T00:21:40Z'' 1300)) =
      Some alertA"
    "getScheduledTime_ISO_8601 (example_alert ''A'' ''1970-01-01T00:21:40Z'' 1300) =
      ''1970-01-01T00:21:40Z''"
    by (simp_all add: isPastDue_def getAlertLocked_def example_defs)
  from scheduleAlert_rejects_past_due_and_routes_to_update
    [OF c, of "example_alert ''C'' ''1970-01-01T00:15:00Z'' 900" example_two alertA] p(1)
  have 1: "scheduleAlert example_env (example_alert ''C'' ''1970-01-01T00:15:00Z'' 900)
      example_two = (False, example_two)"
    by blast
  from scheduleAlert_rejects_past_due_and_routes_to_update
    [OF c, of "example_alert ''A'' ''1970-01-01T00:21:40Z'' 1300" example_two alertA] p(2,3)
  have 2: "scheduleAlert example_env (example_alert ''A'' ''1970-01-01T00:21:40Z'' 1300)
      example_two =
      updateAlert example_env alertA
        (getScheduledTime_ISO_8601 (example_alert ''A'' ''1970-01-01T00:21:40Z'' 1300))
        example_two"
    by blast
  from c p(1,2,3) 1 2 show ?thesis
    unfolding p(4) by blast
qed

section \<open>Deleting twice\<close>

lemma getAlertLocked_Some:
  "getAlertLocked s tok = Some a \<Longrightarrow> a \<in> set (m_scheduledAlerts s) \<and> getToken a = tok"
  by (auto simp: getAlertLocked_def find_Some_iff)

lemma getAlertLocked_None:
  "getAlertLocked s tok = None \<longleftrightarrow> tok \<notin> getToken ` set (m_scheduledAlerts s)"
  by (auto simp: getAlertLocked_def find_None_iff)


lemma at_most_one:
  "length ys \<le> 1 \<Longrightarrow> x \<in> set ys \<Longrightarrow> y \<in> set ys \<Longrightarrow> x = y"
  by (cases ys) auto

lemma once_erased_token_gone:
  assumes "length (filter (\<lambda>b. getToken b = getToken a) xs) \<le> 1" and "a \<in> set xs"
  shows "getToken a \<notin> getToken ` set (set_erase a xs)"
proof
  assume "getToken a \<in> getToken ` set (set_erase a xs)"
  then obtain b where b: "b \<in> set xs" "\<not> equivalent a b" "getToken b = getToken a"
    by (auto simp: set_erase_def)
  from assms(2) b(1,3) have "a \<in> set (filter (\<lambda>b. getToken b = getToken a) xs)"
    "b \<in> set (filter (\<lambda>b. getToken b = getToken a) xs)"
    by simp_all
  with assms(1) have "a = b"
    by (rule at_most_one)
  with b(2) show False
    by (simp add: equivalent_iff)
qed

lemma second_with_token:
  "sorted_wrt TimeComparator xs \<Longrightarrow> 2 \<le> length (filter P xs) \<Longrightarrow> find P xs = Some a \<Longrightarrow>
   \<exists>b \<in> set xs. P b \<and> \<not> equivalent a b"
proof (induction xs)
  case Nil
  then show ?case by simp
next
  case (Cons x xs)
  show ?case
  proof (cases "P x")
    case True
    with Cons.prems(2,3) have a: "a = x" and "filter P xs \<noteq> []"
      by auto
    then obtain b where b: "b \<in> set xs" "P b"
      by (auto simp: filter_empty_conv)
    with Cons.prems(1) have "TimeComparator x b"
      by simp
    then have "\<not> equivalent x b"
      by (simp add: equivalent_def)
    with a b show ?thesis
      by auto
  next
    case False
    with Cons show ?thesis
      by auto
  qed
qed

lemma deleteAlert_scheduled:
  assumes "activeAlertWithToken s tok = None" and "getAlertLocked s tok = Some alert"
  shows "deleteAlert e tok s = (True, snd (deleteAlert e tok s))"
    and "m_scheduledAlerts (snd (deleteAlert e tok s)) = set_erase alert (m_scheduledAlerts s)"
    and "m_activeAlert (snd (deleteAlert e tok s)) = m_activeAlert s"
    and "m_alertStorage (snd (deleteAlert e tok s)) =
      snd (storage_erase e alert (m_alertStorage s))"
  using assms by (simp_all add: deleteAlert_def Let_def setTimer_eq eraseAlert_eq)

lemma example_rescheduled_eq:
  "example_rescheduled =
     \<lparr> m_alertPastDueTimeLimit = 30, m_observer = False,
       m_alertStorage = [toRow alertA, toRow alertA_later],
       m_activeAlert = Some (activate (setFocusState FOREGROUND (setObserver (setRenderer alertA)))),
       m_scheduledAlerts = [setObserver (setRenderer alertA_later)],
       m_focusState = FOREGROUND,
       m_scheduledAlertTimer = None,
       m_executor = [(''A'', ''ALARM'', READY, [])] \<rparr>"
  by (simp add: example_rescheduled_def example_promoted_idle_eq scheduleAlert_def isPastDue_def
      getAlertLocked_def storage_store_def Let_def alertA_later_def example_alert_def
      example_env_def)

text \<open>The alert A as it is after the snooze to 1200.\<close>

lemma example_twins_eq:
  "example_twins =
     \<lparr> m_alertPastDueTimeLimit = 30, m_observer = False,
       m_alertStorage =
         [toRow (snooze example_env ''1970-01-01T00:20:00Z''
                   (activate (setFocusState FOREGROUND (setObserver (setRenderer alertA))))),
          toRow (snooze example_env ''1970-01-01T00:20:00Z''
                   (activate (setFocusState FOREGROUND (setObserver (setRenderer alertA)))))],
       m_activeAlert = None,
       m_scheduledAlerts =
         [snooze example_env ''1970-01-01T00:20:00Z''
            (activate (setFocusState FOREGROUND (setObserver (setRenderer alertA)))),
          setObserver (setRenderer alertA_later)],
       m_focusState = FOREGROUND,
       m_scheduledAlertTimer = Some \<lparr>taskDelay = 200, taskToken = ''A'', taskType = ''ALARM''\<rparr>,
       m_executor = [(''A'', ''ALARM'', READY, []), (''A'', ''ALARM'', SNOOZED, [])] \<rparr>"
  by (simp add: example_twins_def example_snoozing_def example_rescheduled_eq snoozeAlert_def
      activeAlertWithToken_def executeOnAlertStateChange_def Let_def storage_modify_def
      notifyObserver_def setTimer_eq armedFor_def readyFor_def TimeComparator_def snooze_def
      updateScheduledTime_def toRow_def activate_def setFocusState_def setObserver_def
      setRenderer_def alertA_def alertA_later_def example_alert_def example_env_def
      example_convert8601_def)

lemma example_twins_reachable: "reachable example_twins"
proof -
  have r0: "reachable example_fresh"
    unfolding example_fresh_def by (rule reachable.constructed)
  have r1: "reachable example_scheduled"
    by (rule reachable.performed [OF r0, of example_env "ScheduleAlert alertA"])
      (simp add: example_scheduled_def)
  have r2: "reachable (timerExpired example_scheduled)"
    by (rule reachable.performed [OF r1, of example_env TimerExpired]) simp
  have r3: "reachable example_promoted_idle"
    by (rule reachable.performed [OF r2, of example_env "UpdateFocus FOREGROUND"])
      (simp add: example_promoted_idle_def)
  have r4: "reachable example_rescheduled"
    by (rule reachable.performed [OF r3, of example_env "ScheduleAlert alertA_later"])
      (simp add: example_rescheduled_def)
  have r5: "reachable example_snoozing"
    by (rule reachable.performed
        [OF r4, of example_env "SnoozeAlert ''A'' ''1970-01-01T00:20:00Z''"])
      (simp add: example_snoozing_def)
  have "executeOnAlertStateChange example_env ''A'' ''ALARM'' SNOOZED [] example_snoozing =
      Inr example_twins"
    by (simp add: example_twins_def example_snoozing_def example_rescheduled_eq snoozeAlert_def
        activeAlertWithToken_def executeOnAlertStateChange_def Let_def alertA_token)
  then show ?thesis
    by (intro reachable.performed
        [OF r5, of example_env "ExecuteOnAlertStateChange ''A'' ''ALARM'' SNOOZED []"]) simp
qed

text \<open>
  Claim C7, as the code has it. The claim as stated fails in a scheduler that holds
  two scheduled alerts under the token: each \<^const>\<open>deleteAlert\<close> removes the first
  alert it finds, so the second call removes the second alert. What holds: when at
  most one scheduled alert carries the token, or the token is that of the active
  alert, a second \<^const>\<open>deleteAlert\<close> of the token, whatever the collaborators
  answer the second time, returns the same value and the same scheduler (set, active
  slot, timer, rows and queue) as the first alone. A token that matches neither the
  active alert nor a scheduled one gives success and the scheduler unchanged. The
  condition is needed: on a scheduled set in comparator order, when the token is not
  the active alert's and more than one scheduled alert carries it, the second call
  leaves another set than the first.
\<close>

theorem deleteAlert_idempotent:
  "(tokenScheduledOnce s tok \<or> activeAlertWithToken s tok \<noteq> None \<longrightarrow>
      deleteAlert e2 tok (snd (deleteAlert e1 tok s)) = deleteAlert e1 tok s) \<and>
   (activeAlertWithToken s tok = None \<and> getAlertLocked s tok = None \<longrightarrow>
      deleteAlert e1 tok s = (True, s)) \<and>
   (sorted_wrt TimeComparator (m_scheduledAlerts s) \<and> activeAlertWithToken s tok = None \<and>
    \<not> tokenScheduledOnce s tok \<longrightarrow>
      m_scheduledAlerts (snd (deleteAlert e2 tok (snd (deleteAlert e1 tok s)))) \<noteq>
      m_scheduledAlerts (snd (deleteAlert e1 tok s)))"
proof (intro conjI impI)
  assume h: "tokenScheduledOnce s tok \<or> activeAlertWithToken s tok \<noteq> None"
  show "deleteAlert e2 tok (snd (deleteAlert e1 tok s)) = deleteAlert e1 tok s"
  proof (cases "activeAlertWithToken s tok")
    case (Some a)
    then show ?thesis
      by (auto simp: deleteAlert_def activeAlertWithToken_def
          deactivateActiveAlertHelperLocked_def deactivate_def split: option.splits if_splits)
  next
    case None
    with h have once: "tokenScheduledOnce s tok" by simp
    show ?thesis
    proof (cases "getAlertLocked s tok")
      case n: None
      with None show ?thesis by (simp add: deleteAlert_def)
    next
      case (Some alert)
      let ?s' = "snd (deleteAlert e1 tok s)"
      from Some have m: "alert \<in> set (m_scheduledAlerts s)" "getToken alert = tok"
        using getAlertLocked_Some by blast+
      note d = deleteAlert_scheduled [OF None Some, of e1]
      from once m(2)
      have "length (filter (\<lambda>b. getToken b = getToken alert) (m_scheduledAlerts s)) \<le> 1"
        by (simp add: tokenScheduledOnce_def)
      from once_erased_token_gone [OF this m(1)] m(2) d(2)
      have "getAlertLocked ?s' tok = None"
        by (simp add: getAlertLocked_None)
      moreover from d(3) None have "activeAlertWithToken ?s' tok = None"
        by (simp add: activeAlertWithToken_def)
      ultimately have "deleteAlert e2 tok ?s' = (True, ?s')"
        by (simp add: deleteAlert_def)
      with d(1) show ?thesis by simp
    qed
  qed
next
  assume "activeAlertWithToken s tok = None \<and> getAlertLocked s tok = None"
  then show "deleteAlert e1 tok s = (True, s)"
    by (simp add: deleteAlert_def)
next
  assume h: "sorted_wrt TimeComparator (m_scheduledAlerts s) \<and>
    activeAlertWithToken s tok = None \<and> \<not> tokenScheduledOnce s tok"
  let ?s' = "snd (deleteAlert e1 tok s)"
  let ?P = "\<lambda>a. tok = getToken a"
  from h have two: "2 \<le> length (filter ?P (m_scheduledAlerts s))"
    by (simp add: tokenScheduledOnce_def eq_commute [of tok])
  then have "filter ?P (m_scheduledAlerts s) \<noteq> []"
    by auto
  then obtain alert where a: "getAlertLocked s tok = Some alert"
    by (cases "getAlertLocked s tok")
      (auto simp: getAlertLocked_def find_None_iff filter_empty_conv)
  from h have none: "activeAlertWithToken s tok = None" by simp
  note d = deleteAlert_scheduled [OF none a, of e1]
  from h two a obtain b where b: "b \<in> set (m_scheduledAlerts s)" "tok = getToken b"
      "\<not> equivalent alert b"
    using second_with_token [of "m_scheduledAlerts s" ?P alert]
    by (auto simp: getAlertLocked_def)
  from b(1,3) have "b \<in> set (m_scheduledAlerts ?s')"
    by (simp add: d(2) set_erase_def)
  with b(2) have "getAlertLocked ?s' tok \<noteq> None"
    by (auto simp: getAlertLocked_None)
  then obtain c where c: "getAlertLocked ?s' tok = Some c"
    by auto
  from none d(3) have none': "activeAlertWithToken ?s' tok = None"
    by (simp add: activeAlertWithToken_def)
  note d' = deleteAlert_scheduled [OF none' c, of e2]
  from c have "c \<in> set (m_scheduledAlerts ?s')"
    using getAlertLocked_Some by blast
  moreover have "c \<notin> set (m_scheduledAlerts (snd (deleteAlert e2 tok ?s')))"
    by (simp add: d'(2) set_erase_self)
  ultimately show "m_scheduledAlerts (snd (deleteAlert e2 tok ?s')) \<noteq> m_scheduledAlerts ?s'"
    by auto
qed

theorem deleteAlert_idempotent_witness:
  "tokenScheduledOnce example_two ''A'' \<and>
   deleteAlert (example_env\<lparr>eraseOk := \<lambda>a. False\<rparr>) ''A''
     (snd (deleteAlert example_env ''A'' example_two)) =
     deleteAlert example_env ''A'' example_two \<and>
   m_scheduledAlerts (snd (deleteAlert example_env ''A'' example_two)) = [alertB] \<and>
   m_alertStorage (snd (deleteAlert example_env ''A'' example_two)) = [toRow alertB] \<and>
   activeAlertWithToken example_active ''A'' =
     Some (activate (setFocusState FOREGROUND alertA)) \<and>
   deleteAlert example_env ''A'' (snd (deleteAlert example_env ''A'' example_active)) =
     deleteAlert example_env ''A'' example_active \<and>
   activeAlertWithToken example_two ''missing'' = None \<and>
   getAlertLocked example_two ''missing'' = None \<and>
   deleteAlert example_env ''missing'' example_two = (True, example_two) \<and>
   sorted_wrt TimeComparator (m_scheduledAlerts example_twins) \<and>
   activeAlertWithToken example_twins ''A'' = None \<and>
   \<not> tokenScheduledOnce example_twins ''A'' \<and>
   m_scheduledAlerts
     (snd (deleteAlert example_env ''A'' (snd (deleteAlert example_env ''A'' example_twins)))) \<noteq>
   m_scheduledAlerts (snd (deleteAlert example_env ''A'' example_twins))"
proof -
  have 1: "tokenScheduledOnce example_two ''A''"
    by (simp add: tokenScheduledOnce_def example_defs)
  have v: "m_scheduledAlerts (snd (deleteAlert example_env ''A'' example_two)) = [alertB]"
    "m_alertStorage (snd (deleteAlert example_env ''A'' example_two)) = [toRow alertB]"
    by (simp_all add: deleteAlert_def activeAlertWithToken_def getAlertLocked_def Let_def
        eraseAlert_eq setTimer_eq storage_erase_def set_erase_def equivalent_iff example_defs)
  have 2: "activeAlertWithToken example_active ''A'' =
      Some (activate (setFocusState FOREGROUND alertA))"
    by (simp add: activeAlertWithToken_def example_defs activate_def setFocusState_def)
  have 3: "activeAlertWithToken example_two ''missing'' = None"
    "getAlertLocked example_two ''missing'' = None"
    by (simp_all add: activeAlertWithToken_def getAlertLocked_def example_defs)
  have 4: "sorted_wrt TimeComparator (m_scheduledAlerts example_twins)"
    "activeAlertWithToken example_twins ''A'' = None"
    "\<not> tokenScheduledOnce example_twins ''A''"
    by (simp_all add: example_twins_eq TimeComparator_def activeAlertWithToken_def
        tokenScheduledOnce_def snooze_def updateScheduledTime_def activate_def setFocusState_def
        setObserver_def setRenderer_def alertA_def alertA_later_def example_alert_def
        example_env_def example_convert8601_def)
  note t1 = deleteAlert_idempotent
    [of example_two "''A''" "example_env\<lparr>eraseOk := \<lambda>a. False\<rparr>" example_env]
  note t2 = deleteAlert_idempotent [of example_active "''A''" example_env example_env]
  note t3 = deleteAlert_idempotent [of example_two "''missing''" example_env example_env]
  note t4 = deleteAlert_idempotent [of example_twins "''A''" example_env example_env]
  from t1 1 have a: "deleteAlert (example_env\<lparr>eraseOk := \<lambda>a. False\<rparr>) ''A''
     (snd (deleteAlert example_env ''A'' example_two)) =
     deleteAlert example_env ''A'' example_two"
    by simp
  from t2 2 have b: "deleteAlert example_env ''A''
      (snd (deleteAlert example_env ''A'' example_active)) =
     deleteAlert example_env ''A'' example_active"
    by simp
  from t3 3 have c: "deleteAlert example_env ''missing'' example_two = (True, example_two)"
    by simp
  from t4 4 have d: "m_scheduledAlerts
     (snd (deleteAlert example_env ''A'' (snd (deleteAlert example_env ''A'' example_twins)))) \<noteq>
   m_scheduledAlerts (snd (deleteAlert example_env ''A'' example_twins))"
    by simp
  from 1 a v 2 b 3 c 4 d show ?thesis
    by (intro conjI)
qed

text \<open>
  The scheduler in which the claim C7, as stated, fails. A is scheduled and promoted;
  a second alert is scheduled under its token, for 1300; A is snoozed to 1200 and its
  Snoozed event arrives. The set now holds both. The first delete of the token removes
  the alert due at 1200, the second the alert due at 1300.
\<close>

theorem second_delete_removes_second_alert:
  "reachable example_twins \<and>
   m_activeAlert example_twins = None \<and>
   map getToken (m_scheduledAlerts example_twins) = [''A'', ''A''] \<and>
   map getScheduledTime_Unix (m_scheduledAlerts example_twins) = [1200, 1300] \<and>
   fst (deleteAlert example_env ''A'' example_twins) \<and>
   map getScheduledTime_Unix
     (m_scheduledAlerts (snd (deleteAlert example_env ''A'' example_twins))) = [1300] \<and>
   fst (deleteAlert example_env ''A'' (snd (deleteAlert example_env ''A'' example_twins))) \<and>
   m_scheduledAlerts
     (snd (deleteAlert example_env ''A'' (snd (deleteAlert example_env ''A'' example_twins)))) = [] \<and>
   deleteAlert example_env ''A'' (snd (deleteAlert example_env ''A'' example_twins)) \<noteq>
     deleteAlert example_env ''A'' example_twins"
proof -
  have f: "snooze example_env ''1970-01-01T00:20:00Z''
      (activate (setFocusState FOREGROUND (setObserver (setRenderer alertA)))) =
    (example_alert ''A'' ''1970-01-01T00:20:00Z'' 1200)
      \<lparr>getState := Alert_SNOOZING, getFocusState := FOREGROUND,
       hasRenderer := True, hasObserver := True\<rparr>"
    by (simp add: snooze_def updateScheduledTime_def activate_def setFocusState_def
        setObserver_def setRenderer_def alertA_def example_alert_def example_env_def
        example_convert8601_def)
  have v0: "m_activeAlert example_twins = None"
    "map getToken (m_scheduledAlerts example_twins) = [''A'', ''A'']"
    "map getScheduledTime_Unix (m_scheduledAlerts example_twins) = [1200, 1300]"
    unfolding example_twins_eq f
    by (simp_all add: setObserver_def setRenderer_def alertA_later_def example_alert_def)
  have v1: "fst (deleteAlert example_env ''A'' example_twins)"
    "map getScheduledTime_Unix
       (m_scheduledAlerts (snd (deleteAlert example_env ''A'' example_twins))) = [1300]"
    "snd (deleteAlert example_env ''A'' example_twins) =
       example_twins\<lparr>m_alertStorage := [],
         m_scheduledAlerts := [setObserver (setRenderer alertA_later)],
         m_scheduledAlertTimer := Some \<lparr>taskDelay = 300, taskToken = ''A'', taskType = ''ALARM''\<rparr>,
         m_executor := [(''A'', ''ALARM'', READY, []), (''A'', ''ALARM'', SNOOZED, []),
                        (''A'', ''ALARM'', DELETED, [])]\<rparr>"
    unfolding example_twins_eq f
    by (simp_all add: deleteAlert_def activeAlertWithToken_def
        getAlertLocked_def Let_def eraseAlert_eq setTimer_eq armedFor_def readyFor_def
        storage_erase_def set_erase_def equivalent_iff toRow_def setObserver_def
        setRenderer_def alertA_later_def example_alert_def example_env_def)
  have v2: "fst (deleteAlert example_env ''A'' (snd (deleteAlert example_env ''A'' example_twins)))"
    "m_scheduledAlerts
      (snd (deleteAlert example_env ''A'' (snd (deleteAlert example_env ''A'' example_twins)))) = []"
    unfolding v1(3) example_twins_eq f
    by (simp_all add: deleteAlert_def activeAlertWithToken_def
        getAlertLocked_def Let_def eraseAlert_eq setTimer_eq armedFor_def readyFor_def
        storage_erase_def set_erase_def equivalent_iff setObserver_def
        setRenderer_def alertA_later_def example_alert_def example_env_def)
  from v1(2) v2(2)
  have "deleteAlert example_env ''A'' (snd (deleteAlert example_env ''A'' example_twins)) \<noteq>
     deleteAlert example_env ''A'' example_twins"
    by auto
  with example_twins_reachable v0 v1(1,2) v2 show ?thesis
    by (intro conjI)
qed

section \<open>Updating the schedule of an alert\<close>

lemma set_insert_member:
  "(\<forall>b \<in> set xs. \<not> equivalent a b) \<Longrightarrow> a \<in> set (set_insert a xs)"
  by (induction xs) (auto simp: equivalent_def)

lemma reinserted_member:
  assumes "\<forall>b \<in> set xs. getToken b = getToken a \<longrightarrow> b = a"
    and "getToken a' = getToken a"
  shows "a' \<in> set (set_insert a' (set_erase a xs))"
proof (rule set_insert_member, rule ballI)
  fix b assume "b \<in> set (set_erase a xs)"
  then have b: "b \<in> set xs" "\<not> equivalent a b"
    by (auto simp: set_erase_def)
  have "getToken b \<noteq> getToken a"
  proof
    assume "getToken b = getToken a"
    with assms(1) b(1) have "b = a" by blast
    with b(2) show False by (simp add: equivalent_iff)
  qed
  with assms(2) show "\<not> equivalent a' b"
    by (simp add: equivalent_iff)
qed

lemma finallyGuard_scheduled:
  "m_scheduledAlerts (finallyGuard e a s) = set_insert a (m_scheduledAlerts s)"
  by (simp add: finallyGuard_def Let_def setTimer_eq)

lemma updateAlert_cases:
  "updateAlert e alert newTime s =
     (case convert8601 e newTime of
        None \<Rightarrow> (False, finallyGuard e alert
                   (s\<lparr>m_scheduledAlerts := set_erase alert (m_scheduledAlerts s)\<rparr>))
      | Some unix \<Rightarrow>
          (let alert1 = alert\<lparr>getScheduledTime_ISO_8601 := newTime,
                               getScheduledTime_Unix := unix\<rparr>
           in if modifyOk e alert1
              then (True, finallyGuard e alert1
                     (s\<lparr>m_scheduledAlerts := set_erase alert (m_scheduledAlerts s),
                        m_alertStorage :=
                          map (\<lambda>r. if rowToken r = getToken alert then toRow alert1 else r)
                            (m_alertStorage s)\<rparr>))
              else (False, finallyGuard e
                     (snd (updateScheduledTime e (getScheduledTime_ISO_8601 alert) alert1))
                     (s\<lparr>m_scheduledAlerts := set_erase alert (m_scheduledAlerts s)\<rparr>))))"
  by (simp add: updateAlert_def updateScheduledTime_def storage_modify_def Let_def
      split: option.split)

text \<open>
  Claim C3. \<^const>\<open>updateAlert\<close> leaves by three paths: the time update fails, the
  storage modify fails, or both succeed. On each of them the guard runs: the scheduled
  set afterwards is the old set with the alert erased and the alert, as it is at the
  exit, inserted again (so it is a member, when no other scheduled alert has its
  token), and when no alert is active the result is what
  \<^const>\<open>setTimerForNextAlertLocked\<close> returns on the scheduler holding that set. The
  call succeeds exactly when both steps do, and the alert then carries the new time;
  when the time update fails the alert is untouched. When the storage modify fails, the
  rows are as before and the alert's scheduled time, ISO-8601 text and epoch seconds,
  is the one it had before the call; the restoring conversion is the one that produced
  the old time, so the old text is taken to convert to the old seconds.
\<close>

theorem updateAlert_restores_time_and_reinserts:
  "\<exists>alert' s0.
     getToken alert' = getToken alert \<and>
     m_scheduledAlerts s0 = set_insert alert' (set_erase alert (m_scheduledAlerts s)) \<and>
     m_activeAlert s0 = m_activeAlert s \<and>
     snd (updateAlert e alert newTime s) =
       (if m_activeAlert s = None then setTimerForNextAlertLocked e s0 else s0) \<and>
     ((\<forall>b \<in> set (m_scheduledAlerts s). getToken b = getToken alert \<longrightarrow> b = alert) \<longrightarrow>
        alert' \<in> set (m_scheduledAlerts (snd (updateAlert e alert newTime s)))) \<and>
     (fst (updateAlert e alert newTime s) \<longleftrightarrow>
        fst (updateScheduledTime e newTime alert) \<and>
        modifyOk e (snd (updateScheduledTime e newTime alert))) \<and>
     (fst (updateAlert e alert newTime s) \<longrightarrow>
        alert' = snd (updateScheduledTime e newTime alert)) \<and>
     (\<not> fst (updateScheduledTime e newTime alert) \<longrightarrow> alert' = alert) \<and>
     (fst (updateScheduledTime e newTime alert) \<and>
      \<not> fst (storage_modify e (snd (updateScheduledTime e newTime alert)) (m_alertStorage s)) \<and>
      convert8601 e (getScheduledTime_ISO_8601 alert) = Some (getScheduledTime_Unix alert) \<longrightarrow>
        getScheduledTime_ISO_8601 alert' = getScheduledTime_ISO_8601 alert \<and>
        getScheduledTime_Unix alert' = getScheduledTime_Unix alert \<and>
        m_alertStorage (snd (updateAlert e alert newTime s)) = m_alertStorage s)"
proof -
  define alert' where "alert' =
    (case convert8601 e newTime of
       None \<Rightarrow> alert
     | Some unix \<Rightarrow>
         if modifyOk e (alert\<lparr>getScheduledTime_ISO_8601 := newTime, getScheduledTime_Unix := unix\<rparr>)
         then alert\<lparr>getScheduledTime_ISO_8601 := newTime, getScheduledTime_Unix := unix\<rparr>
         else snd (updateScheduledTime e (getScheduledTime_ISO_8601 alert)
                (alert\<lparr>getScheduledTime_ISO_8601 := newTime, getScheduledTime_Unix := unix\<rparr>)))"
  define s0 where "s0 =
    s\<lparr>m_scheduledAlerts := set_insert alert' (set_erase alert (m_scheduledAlerts s)),
      m_alertStorage :=
        (if fst (updateScheduledTime e newTime alert)
         then snd (storage_modify e (snd (updateScheduledTime e newTime alert)) (m_alertStorage s))
         else m_alertStorage s)\<rparr>"
  have tok: "getToken alert' = getToken alert"
    by (simp add: alert'_def updateScheduledTime_def split: option.split)
  have res: "snd (updateAlert e alert newTime s) =
       (if m_activeAlert s = None then setTimerForNextAlertLocked e s0 else s0)"
    by (cases "m_activeAlert s"; cases "convert8601 e newTime")
      (simp_all add: updateAlert_cases s0_def alert'_def finallyGuard_def Let_def setTimer_eq
        updateScheduledTime_def storage_modify_def)
  have sch: "m_scheduledAlerts (snd (updateAlert e alert newTime s)) =
      set_insert alert' (set_erase alert (m_scheduledAlerts s))"
    by (simp add: res s0_def setTimer_eq)
  have mem: "alert' \<in> set (m_scheduledAlerts (snd (updateAlert e alert newTime s)))"
    if "\<forall>b \<in> set (m_scheduledAlerts s). getToken b = getToken alert \<longrightarrow> b = alert"
    unfolding sch using that tok by (rule reinserted_member)
  have r1: "fst (updateAlert e alert newTime s) \<longleftrightarrow>
        fst (updateScheduledTime e newTime alert) \<and>
        modifyOk e (snd (updateScheduledTime e newTime alert))"
    by (cases "convert8601 e newTime")
      (simp_all add: updateAlert_cases updateScheduledTime_def Let_def)
  have r2: "alert' = snd (updateScheduledTime e newTime alert)"
    if "fst (updateAlert e alert newTime s)"
    using that
    by (cases "convert8601 e newTime")
      (simp_all add: updateAlert_cases updateScheduledTime_def Let_def alert'_def split: if_splits)
  have r3: "alert' = alert" if "\<not> fst (updateScheduledTime e newTime alert)"
    using that
    by (cases "convert8601 e newTime") (simp_all add: updateScheduledTime_def alert'_def)
  have r4: "getScheduledTime_ISO_8601 alert' = getScheduledTime_ISO_8601 alert \<and>
        getScheduledTime_Unix alert' = getScheduledTime_Unix alert \<and>
        m_alertStorage (snd (updateAlert e alert newTime s)) = m_alertStorage s"
    if "fst (updateScheduledTime e newTime alert)"
      "\<not> fst (storage_modify e (snd (updateScheduledTime e newTime alert)) (m_alertStorage s))"
      "convert8601 e (getScheduledTime_ISO_8601 alert) = Some (getScheduledTime_Unix alert)"
    using that
    by (cases "convert8601 e newTime")
      (simp_all add: updateAlert_cases updateScheduledTime_def storage_modify_def Let_def
        alert'_def finallyGuard_storage split: if_splits)
  have s0: "m_scheduledAlerts s0 = set_insert alert' (set_erase alert (m_scheduledAlerts s))"
    "m_activeAlert s0 = m_activeAlert s"
    by (simp_all add: s0_def)
  show ?thesis
    by (rule exI [of _ alert'], rule exI [of _ s0])
      (use tok res mem r1 r2 r3 r4 s0 in blast)
qed

theorem updateAlert_restores_time_and_reinserts_witness:
  "fst (updateScheduledTime (example_env\<lparr>modifyOk := \<lambda>a. False\<rparr>) ''1970-01-01T00:21:40Z'' alertA) \<and>
   \<not> fst (storage_modify (example_env\<lparr>modifyOk := \<lambda>a. False\<rparr>)
          (snd (updateScheduledTime (example_env\<lparr>modifyOk := \<lambda>a. False\<rparr>)
                  ''1970-01-01T00:21:40Z'' alertA))
          (m_alertStorage example_two)) \<and>
   convert8601 (example_env\<lparr>modifyOk := \<lambda>a. False\<rparr>) (getScheduledTime_ISO_8601 alertA) =
     Some (getScheduledTime_Unix alertA) \<and>
   \<not> fst (updateAlert (example_env\<lparr>modifyOk := \<lambda>a. False\<rparr>) alertA
          ''1970-01-01T00:21:40Z'' example_two) \<and>
   (\<exists>alert'.
      alert' \<in> set (m_scheduledAlerts
        (snd (updateAlert (example_env\<lparr>modifyOk := \<lambda>a. False\<rparr>) alertA
               ''1970-01-01T00:21:40Z'' example_two))) \<and>
      getToken alert' = ''A'' \<and> getScheduledTime_Unix alert' = 1100) \<and>
   m_scheduledAlertTimer
     (snd (updateAlert (example_env\<lparr>modifyOk := \<lambda>a. False\<rparr>) alertA
            ''1970-01-01T00:21:40Z'' example_two)) =
     Some \<lparr>taskDelay = 100, taskToken = ''A'', taskType = ''ALARM''\<rparr>"
proof -
  let ?e = "example_env\<lparr>modifyOk := \<lambda>a. False\<rparr>"
  let ?t = "''1970-01-01T00:21:40Z''"
  have h: "fst (updateScheduledTime ?e ?t alertA)"
    "\<not> fst (storage_modify ?e (snd (updateScheduledTime ?e ?t alertA))
          (m_alertStorage example_two))"
    "convert8601 ?e (getScheduledTime_ISO_8601 alertA) = Some (getScheduledTime_Unix alertA)"
    by (simp_all add: updateScheduledTime_def storage_modify_def example_defs)
  have u: "\<forall>b \<in> set (m_scheduledAlerts example_two). getToken b = getToken alertA \<longrightarrow> b = alertA"
    by (simp add: example_defs)
  have a: "m_activeAlert example_two = None" "getToken alertA = ''A''"
    "getScheduledTime_Unix alertA = 1100"
    by (simp_all add: example_defs)
  obtain alert' s0 where
    k: "getToken alert' = getToken alertA"
      "m_scheduledAlerts s0 = set_insert alert' (set_erase alertA (m_scheduledAlerts example_two))"
      "snd (updateAlert ?e alertA ?t example_two) =
        (if m_activeAlert example_two = None then setTimerForNextAlertLocked ?e s0 else s0)"
      "alert' \<in> set (m_scheduledAlerts (snd (updateAlert ?e alertA ?t example_two)))"
      "\<not> fst (updateAlert ?e alertA ?t example_two)"
      "getScheduledTime_Unix alert' = getScheduledTime_Unix alertA"
    using updateAlert_restores_time_and_reinserts [of alertA example_two ?e ?t] h u
    by (auto simp: storage_modify_def)
  have "m_scheduledAlertTimer (snd (updateAlert ?e alertA ?t example_two)) =
      Some \<lparr>taskDelay = 100, taskToken = ''A'', taskType = ''ALARM''\<rparr>"
    by (simp add: updateAlert_cases finallyGuard_def Let_def setTimer_eq armedFor_def
        set_erase_def equivalent_iff updateScheduledTime_def TimeComparator_def example_defs)
  with h k a show ?thesis
    by auto
qed

section \<open>Deleting many alerts\<close>

lemma collectAlerts_eq:
  "collectAlerts s toks (d, acc) =
     (d \<or> (\<exists>t \<in> set toks. activeAlertWithToken s t \<noteq> None),
      acc @ List.map_filter (matchedAlert s) toks)"
proof (induction toks arbitrary: d acc)
  case Nil
  then show ?case by (simp add: map_filter_simps)
next
  case (Cons t toks)
  show ?case
    by (cases "activeAlertWithToken s t"; cases "getAlertLocked s t")
      (auto simp: Cons map_filter_simps matchedAlert_def)
qed

lemma removeAlert_eq:
  "removeAlert a s =
     s\<lparr>m_scheduledAlerts := set_erase a (m_scheduledAlerts s),
       m_executor := m_executor s @ [deletedNote a]\<rparr>"
  by (simp add: removeAlert_def notifyObserver_def deletedNote_def)

lemma fold_removeAlert:
  "fold removeAlert as s =
     s\<lparr>m_scheduledAlerts := fold set_erase as (m_scheduledAlerts s),
       m_executor := m_executor s @ map deletedNote as\<rparr>"
  by (induction as arbitrary: s) (simp_all add: removeAlert_eq)

lemma set_fold_set_erase:
  "set (fold set_erase as xs) = {b \<in> set xs. \<forall>a \<in> set as. \<not> equivalent a b}"
  by (induction as arbitrary: xs) (auto simp: set_erase_def)

lemma in_map_filter:
  "a \<in> set (List.map_filter f xs) \<longleftrightarrow> (\<exists>x \<in> set xs. f x = Some a)"
  by (induction xs) (auto split: option.splits)

lemma matchedAlert_token: "matchedAlert s t = Some a \<Longrightarrow> getToken a = t"
  by (auto simp: matchedAlert_def activeAlertWithToken_def getAlertLocked_def find_Some_iff
      split: option.splits if_splits)

lemma scheduled_is_matched:
  "a \<in> set (m_scheduledAlerts s) \<Longrightarrow> matchedAlert s (getToken a) \<noteq> None"
proof (cases "getAlertLocked s (getToken a)")
  case None
  assume "a \<in> set (m_scheduledAlerts s)"
  with None show ?thesis by (simp add: getAlertLocked_None)
next
  case (Some b)
  then show ?thesis by (simp add: matchedAlert_def split: option.split)
qed

lemma readyFor_token:
  "n \<in> set (readyFor e active xs) \<Longrightarrow> \<exists>a \<in> set xs. notifiedToken n = getToken a"
  by (auto simp: readyFor_def notifiedToken_def split: option.splits list.splits if_splits)

lemma active_listed:
  "(\<exists>t \<in> set toks. activeAlertWithToken s t \<noteq> None) \<longleftrightarrow>
   (\<exists>a. m_activeAlert s = Some a \<and> getToken a \<in> set toks)"
  by (cases "m_activeAlert s") (auto simp: activeAlertWithToken_def)

lemma deleteAlerts_eq:
  "deleteAlerts e toks s =
     (let removed = List.map_filter (matchedAlert s) toks;
          rows = snd (storage_bulkErase e removed (m_alertStorage s))
      in if \<not> list_all (eraseOk e) removed then (False, s\<lparr>m_alertStorage := rows\<rparr>, None)
         else
           (let listed = (\<exists>a. m_activeAlert s = Some a \<and> getToken a \<in> set toks);
                active' = (if listed then None else m_activeAlert s);
                scheduled' = fold set_erase removed (m_scheduledAlerts s)
            in (True,
                s\<lparr>m_alertStorage := rows, m_activeAlert := active',
                  m_scheduledAlerts := scheduled',
                  m_scheduledAlertTimer := armedFor e active' scheduled',
                  m_executor := m_executor s @ map deletedNote removed
                                @ readyFor e active' scheduled'\<rparr>,
                if listed then map_option (deactivate AVS_STOP) (m_activeAlert s) else None)))"
  unfolding active_listed [symmetric]
  by (simp add: deleteAlerts_def collectAlerts_eq storage_bulkErase_def Let_def
      fold_removeAlert setTimer_eq deactivateActiveAlertHelperLocked_def split: option.split)

text \<open>
  Claim C4. When the bulk erase of the collected alerts fails, \<^const>\<open>deleteAlerts\<close>
  returns failure, no alert is told to stop, and the scheduler differs from the one
  before at most in its rows (the bulk erase is not atomic): set, active slot, focus,
  timer and queue are untouched. When it succeeds, the call returns success. If the
  active alert's token was in the list, the active alert has been deactivated with
  reason \<open>AVS_STOP\<close> (it is the alert the call gives back, in state Stopping) and the
  slot is empty; otherwise no alert is deactivated and the slot is unchanged. No alert
  matched by a token of the list is left in the scheduled set; the result is what
  \<^const>\<open>setTimerForNextAlertLocked\<close> returns on a scheduler with that slot and set;
  the queue gains one Deleted notification per matched token, in the order of the
  list, then what the timer arming emits; and no notification that the call queued
  bears a token of the list that matched no alert.
\<close>

theorem deleteAlerts_all_or_nothing:
  assumes "deleteAlerts e tokenList s = (ok, s', released)"
  shows
   "(\<not> fst (storage_bulkErase e (snd (collectAlerts s tokenList (False, []))) (m_alertStorage s))
       \<longrightarrow> \<not> ok \<and> released = None \<and> s'\<lparr>m_alertStorage := m_alertStorage s\<rparr> = s) \<and>
    (fst (storage_bulkErase e (snd (collectAlerts s tokenList (False, []))) (m_alertStorage s))
       \<longrightarrow> ok \<and>
        (\<forall>a. m_activeAlert s = Some a \<and> getToken a \<in> set tokenList \<longrightarrow>
           released = Some (deactivate AVS_STOP a) \<and>
           getState (deactivate AVS_STOP a) = Alert_STOPPING \<and>
           getStopReason (deactivate AVS_STOP a) = Some AVS_STOP \<and>
           m_activeAlert s' = None) \<and>
        ((\<nexists>a. m_activeAlert s = Some a \<and> getToken a \<in> set tokenList) \<longrightarrow>
           released = None \<and> m_activeAlert s' = m_activeAlert s) \<and>
        (\<forall>t \<in> set tokenList. \<forall>a. matchedAlert s t = Some a \<longrightarrow>
           a \<notin> set (m_scheduledAlerts s')) \<and>
        (\<exists>s0. s' = setTimerForNextAlertLocked e s0 \<and>
              m_activeAlert s0 = m_activeAlert s' \<and>
              m_scheduledAlerts s0 = m_scheduledAlerts s') \<and>
        m_executor s' =
          m_executor s @ map deletedNote (List.map_filter (matchedAlert s) tokenList)
          @ readyFor e (m_activeAlert s') (m_scheduledAlerts s') \<and>
        (\<forall>t \<in> set tokenList. matchedAlert s t = None \<longrightarrow>
           t \<notin> notifiedToken ` set (drop (length (m_executor s)) (m_executor s'))))"
proof -
  let ?removed = "List.map_filter (matchedAlert s) tokenList"
  let ?listed = "\<exists>a. m_activeAlert s = Some a \<and> getToken a \<in> set tokenList"
  have bulk: "fst (storage_bulkErase e (snd (collectAlerts s tokenList (False, [])))
      (m_alertStorage s)) = list_all (eraseOk e) ?removed"
    by (simp add: collectAlerts_eq storage_bulkErase_def)
  show ?thesis
  proof (cases "list_all (eraseOk e) ?removed")
    case False
    with assms have "\<not> ok" "released = None" "s'\<lparr>m_alertStorage := m_alertStorage s\<rparr> = s"
      by (auto simp: deleteAlerts_eq Let_def)
    with False bulk show ?thesis by simp
  next
    case True
    define active' where "active' = (if ?listed then None else m_activeAlert s)"
    define scheduled' where "scheduled' = fold set_erase ?removed (m_scheduledAlerts s)"
    from assms True have ok: "ok"
      and s': "s' = s\<lparr>m_alertStorage := snd (storage_bulkErase e ?removed (m_alertStorage s)),
                  m_activeAlert := active', m_scheduledAlerts := scheduled',
                  m_scheduledAlertTimer := armedFor e active' scheduled',
                  m_executor := m_executor s @ map deletedNote ?removed
                                @ readyFor e active' scheduled'\<rparr>"
      and rel: "released =
        (if ?listed then map_option (deactivate AVS_STOP) (m_activeAlert s) else None)"
      by (simp_all add: deleteAlerts_eq Let_def active'_def scheduled'_def)
    have 1: "m_activeAlert s' = active'" and 2: "m_scheduledAlerts s' = scheduled'"
      and 3: "m_executor s' = m_executor s @ map deletedNote ?removed
            @ readyFor e active' scheduled'"
      by (simp_all add: s')
    have d1: "\<forall>a. m_activeAlert s = Some a \<and> getToken a \<in> set tokenList \<longrightarrow>
           released = Some (deactivate AVS_STOP a) \<and>
           getState (deactivate AVS_STOP a) = Alert_STOPPING \<and>
           getStopReason (deactivate AVS_STOP a) = Some AVS_STOP \<and>
           m_activeAlert s' = None"
    proof (intro allI impI)
      fix a assume a: "m_activeAlert s = Some a \<and> getToken a \<in> set tokenList"
      then have "?listed" by blast
      then have "released = map_option (deactivate AVS_STOP) (m_activeAlert s)"
        "m_activeAlert s' = None"
        by (simp_all only: rel 1 active'_def if_True)
      with a show "released = Some (deactivate AVS_STOP a) \<and>
           getState (deactivate AVS_STOP a) = Alert_STOPPING \<and>
           getStopReason (deactivate AVS_STOP a) = Some AVS_STOP \<and>
           m_activeAlert s' = None"
        by (simp add: deactivate_def)
    qed
    have d2: "\<not> ?listed \<longrightarrow> released = None \<and> m_activeAlert s' = m_activeAlert s"
    proof
      assume n: "\<not> ?listed"
      show "released = None \<and> m_activeAlert s' = m_activeAlert s"
        by (simp only: rel 1 active'_def n if_False simp_thms)
    qed
    have 4: "a \<notin> set scheduled'" if "t \<in> set tokenList" "matchedAlert s t = Some a" for t a
    proof -
      from that have "a \<in> set ?removed"
        by (auto simp: in_map_filter)
      then show ?thesis
        by (auto simp: scheduled'_def set_fold_set_erase equivalent_iff)
    qed
    have 5: "s' = setTimerForNextAlertLocked e
        (s'\<lparr>m_executor := m_executor s @ map deletedNote ?removed\<rparr>)"
      by (simp add: s' setTimer_eq)
    have 6: "\<forall>t \<in> set tokenList. matchedAlert s t = None \<longrightarrow>
        t \<notin> notifiedToken ` set (drop (length (m_executor s)) (m_executor s'))"
    proof (intro ballI impI notI)
      fix t assume that: "t \<in> set tokenList" "matchedAlert s t = None"
      assume "t \<in> notifiedToken ` set (drop (length (m_executor s)) (m_executor s'))"
      then obtain n where n0: "n \<in> set (drop (length (m_executor s)) (m_executor s'))"
        and n1: "t = notifiedToken n"
        by (rule imageE)
      have d: "drop (length (m_executor s)) (m_executor s') =
          map deletedNote ?removed @ readyFor e active' scheduled'"
        by (simp add: 3)
      from n0 have n2:
        "n \<in> set (map deletedNote ?removed) \<or> n \<in> set (readyFor e active' scheduled')"
        unfolding d set_append Un_iff .
      from n1 have n: "notifiedToken n = t" by simp
      from n2 show False
      proof
        assume "n \<in> set (map deletedNote ?removed)"
        then obtain t' a where "matchedAlert s t' = Some a" "n = deletedNote a"
          by (auto simp: in_map_filter)
        with n have "t = getToken a"
          by (simp add: deletedNote_def notifiedToken_def)
        also have "getToken a = t'"
          using \<open>matchedAlert s t' = Some a\<close> by (rule matchedAlert_token)
        finally show False
          using that(2) \<open>matchedAlert s t' = Some a\<close> by simp
      next
        assume "n \<in> set (readyFor e active' scheduled')"
        then obtain a where "a \<in> set scheduled'" "notifiedToken n = getToken a"
          using readyFor_token by blast
        with n have "a \<in> set (m_scheduledAlerts s)" "getToken a = t"
          by (auto simp: scheduled'_def set_fold_set_erase)
        with that(2) scheduled_is_matched show False by blast
      qed
    qed
    have 7: "\<exists>s0. s' = setTimerForNextAlertLocked e s0 \<and> m_activeAlert s0 = m_activeAlert s' \<and>
        m_scheduledAlerts s0 = m_scheduledAlerts s'"
      by (rule exI [of _ "s'\<lparr>m_executor := m_executor s @ map deletedNote ?removed\<rparr>"])
        (use 5 in simp)
    from 3 have 8: "m_executor s' = m_executor s @ map deletedNote ?removed
            @ readyFor e (m_activeAlert s') (m_scheduledAlerts s')"
      by (simp only: 1 2)
    from 4 have 9: "\<forall>t \<in> set tokenList. \<forall>a. matchedAlert s t = Some a \<longrightarrow>
        a \<notin> set (m_scheduledAlerts s')"
      unfolding 2 by blast
    from ok d1 d2 9 7 8 6 have all: "ok \<and>
        (\<forall>a. m_activeAlert s = Some a \<and> getToken a \<in> set tokenList \<longrightarrow>
           released = Some (deactivate AVS_STOP a) \<and>
           getState (deactivate AVS_STOP a) = Alert_STOPPING \<and>
           getStopReason (deactivate AVS_STOP a) = Some AVS_STOP \<and>
           m_activeAlert s' = None) \<and>
        ((\<nexists>a. m_activeAlert s = Some a \<and> getToken a \<in> set tokenList) \<longrightarrow>
           released = None \<and> m_activeAlert s' = m_activeAlert s) \<and>
        (\<forall>t \<in> set tokenList. \<forall>a. matchedAlert s t = Some a \<longrightarrow>
           a \<notin> set (m_scheduledAlerts s')) \<and>
        (\<exists>s0. s' = setTimerForNextAlertLocked e s0 \<and>
              m_activeAlert s0 = m_activeAlert s' \<and>
              m_scheduledAlerts s0 = m_scheduledAlerts s') \<and>
        m_executor s' =
          m_executor s @ map deletedNote (List.map_filter (matchedAlert s) tokenList)
          @ readyFor e (m_activeAlert s') (m_scheduledAlerts s') \<and>
        (\<forall>t \<in> set tokenList. matchedAlert s t = None \<longrightarrow>
           t \<notin> notifiedToken ` set (drop (length (m_executor s)) (m_executor s')))"
      by (intro conjI)
    show ?thesis
      unfolding bulk
    proof (rule conjI; rule impI)
      assume "\<not> list_all (eraseOk e) ?removed"
      with True show "\<not> ok \<and> released = None \<and> s'\<lparr>m_alertStorage := m_alertStorage s\<rparr> = s"
        by contradiction
    next
      show "ok \<and>
        (\<forall>a. m_activeAlert s = Some a \<and> getToken a \<in> set tokenList \<longrightarrow>
           released = Some (deactivate AVS_STOP a) \<and>
           getState (deactivate AVS_STOP a) = Alert_STOPPING \<and>
           getStopReason (deactivate AVS_STOP a) = Some AVS_STOP \<and>
           m_activeAlert s' = None) \<and>
        ((\<nexists>a. m_activeAlert s = Some a \<and> getToken a \<in> set tokenList) \<longrightarrow>
           released = None \<and> m_activeAlert s' = m_activeAlert s) \<and>
        (\<forall>t \<in> set tokenList. \<forall>a. matchedAlert s t = Some a \<longrightarrow>
           a \<notin> set (m_scheduledAlerts s')) \<and>
        (\<exists>s0. s' = setTimerForNextAlertLocked e s0 \<and>
              m_activeAlert s0 = m_activeAlert s' \<and>
              m_scheduledAlerts s0 = m_scheduledAlerts s') \<and>
        m_executor s' =
          m_executor s @ map deletedNote (List.map_filter (matchedAlert s) tokenList)
          @ readyFor e (m_activeAlert s') (m_scheduledAlerts s') \<and>
        (\<forall>t \<in> set tokenList. matchedAlert s t = None \<longrightarrow>
           t \<notin> notifiedToken ` set (drop (length (m_executor s)) (m_executor s')))"
        by (rule all)
    qed
  qed
qed

text \<open>Scenario S6, and the same list of tokens given while A is active.\<close>

theorem deleteAlerts_all_or_nothing_witness:
  "(\<exists>s'. deleteAlerts example_env [''A'', ''missing'', ''B''] example_two = (True, s', None) \<and>
     fst (storage_bulkErase example_env
            (snd (collectAlerts example_two [''A'', ''missing'', ''B''] (False, [])))
            (m_alertStorage example_two)) \<and>
     matchedAlert example_two ''missing'' = None \<and>
     m_scheduledAlerts s' = [] \<and> m_scheduledAlertTimer s' = None \<and> m_alertStorage s' = [] \<and>
     m_executor s' = [(''A'', ''ALARM'', DELETED, []), (''B'', ''ALARM'', DELETED, [])] \<and>
     ''missing'' \<notin> notifiedToken ` set (drop (length (m_executor example_two)) (m_executor s'))) \<and>
   (\<exists>s' released.
     deleteAlerts example_env [''A'', ''missing'', ''B''] example_active = (True, s', released) \<and>
     fst (storage_bulkErase example_env
            (snd (collectAlerts example_active [''A'', ''missing'', ''B''] (False, [])))
            (m_alertStorage example_active)) \<and>
     m_activeAlert example_active = Some (activate (setFocusState FOREGROUND alertA)) \<and>
     getToken (activate (setFocusState FOREGROUND alertA)) \<in> set [''A'', ''missing'', ''B''] \<and>
     released = Some (deactivate AVS_STOP (activate (setFocusState FOREGROUND alertA))) \<and>
     getState (deactivate AVS_STOP (activate (setFocusState FOREGROUND alertA))) = Alert_STOPPING \<and>
     m_activeAlert s' = None \<and> m_scheduledAlerts s' = [])"
proof -
  let ?toks = "[''A'', ''missing'', ''B'']"
  let ?s' = "example_two\<lparr>m_alertStorage := [], m_scheduledAlerts := [],
     m_executor := [(''A'', ''ALARM'', DELETED, []), (''B'', ''ALARM'', DELETED, [])]\<rparr>"
  have m: "List.map_filter (matchedAlert example_two) ?toks = [alertA, alertB]"
    "matchedAlert example_two ''missing'' = None"
    by (simp_all add: matchedAlert_def activeAlertWithToken_def getAlertLocked_def example_defs)
  have c: "deleteAlerts example_env ?toks example_two = (True, ?s', None)"
    unfolding deleteAlerts_eq m Let_def
    by (simp add: storage_bulkErase_def activeAlertWithToken_def
        set_erase_def equivalent_iff deletedNote_def armedFor_def readyFor_def example_defs)
  have b: "fst (storage_bulkErase example_env
            (snd (collectAlerts example_two ?toks (False, []))) (m_alertStorage example_two))"
    unfolding collectAlerts_eq snd_conv append_Nil m
    by (simp add: storage_bulkErase_def example_env_def)
  note succ = deleteAlerts_all_or_nothing [OF c, THEN conjunct2, THEN mp, OF b]
  note last = succ [THEN conjunct2, THEN conjunct2, THEN conjunct2, THEN conjunct2,
      THEN conjunct2, THEN conjunct2]
  have "''missing'' \<in> set ?toks"
    by simp
  from last [THEN bspec, OF this, THEN mp, OF m(2)]
  have "''missing'' \<notin> notifiedToken ` set (drop (length (m_executor example_two)) (m_executor ?s'))" .
  moreover have "m_scheduledAlertTimer ?s' = None"
    by (simp add: example_defs)
  moreover have "m_scheduledAlerts ?s' = []" "m_alertStorage ?s' = []"
    "m_executor ?s' = [(''A'', ''ALARM'', DELETED, []), (''B'', ''ALARM'', DELETED, [])]"
    by simp_all
  ultimately have first: "\<exists>s'. deleteAlerts example_env ?toks example_two = (True, s', None) \<and>
     fst (storage_bulkErase example_env
            (snd (collectAlerts example_two ?toks (False, []))) (m_alertStorage example_two)) \<and>
     matchedAlert example_two ''missing'' = None \<and>
     m_scheduledAlerts s' = [] \<and> m_scheduledAlertTimer s' = None \<and> m_alertStorage s' = [] \<and>
     m_executor s' = [(''A'', ''ALARM'', DELETED, []), (''B'', ''ALARM'', DELETED, [])] \<and>
     ''missing'' \<notin> notifiedToken ` set (drop (length (m_executor example_two)) (m_executor s'))"
    using c b m(2) by (intro exI [of _ ?s'] conjI)
  let ?a = "activate (setFocusState FOREGROUND alertA)"
  obtain ok2 s2 released where c2: "deleteAlerts example_env ?toks example_active = (ok2, s2, released)"
    by (rule prod_cases3)
  have m2: "List.map_filter (matchedAlert example_active) ?toks = [?a, alertB]"
    by (simp add: matchedAlert_def activeAlertWithToken_def getAlertLocked_def example_defs
        activate_def setFocusState_def List.map_filter_simps)
  have b2: "fst (storage_bulkErase example_env
            (snd (collectAlerts example_active ?toks (False, []))) (m_alertStorage example_active))"
    unfolding collectAlerts_eq snd_conv append_Nil m2
    by (simp add: storage_bulkErase_def example_env_def)
  have a2: "m_activeAlert example_active = Some ?a" "getToken ?a \<in> set ?toks"
    by (simp_all add: example_defs activate_def setFocusState_def)
  note succ2 = deleteAlerts_all_or_nothing [OF c2, THEN conjunct2, THEN mp, OF b2]
  from succ2 [THEN conjunct1] have ok2: "ok2" .
  from a2 have "m_activeAlert example_active = Some ?a \<and> getToken ?a \<in> set ?toks" ..
  from succ2 [THEN conjunct2, THEN conjunct1, THEN spec, THEN mp, OF this]
  have k: "released = Some (deactivate AVS_STOP ?a)"
    "getState (deactivate AVS_STOP ?a) = Alert_STOPPING" "m_activeAlert s2 = None"
    by simp_all
  have e2: "list_all (eraseOk example_env) [?a, alertB]"
    by (simp add: example_env_def)
  have "m_scheduledAlerts (fst (snd (deleteAlerts example_env ?toks example_active))) = []"
    unfolding deleteAlerts_eq m2 Let_def
    by (simp add: e2) (simp add: set_erase_def equivalent_iff example_defs activate_def
        setFocusState_def)
  with c2 have "m_scheduledAlerts s2 = []" by simp
  with c2 ok2 k b2 a2 have second: "\<exists>s' released.
     deleteAlerts example_env ?toks example_active = (True, s', released) \<and>
     fst (storage_bulkErase example_env
            (snd (collectAlerts example_active ?toks (False, []))) (m_alertStorage example_active)) \<and>
     m_activeAlert example_active = Some ?a \<and> getToken ?a \<in> set ?toks \<and>
     released = Some (deactivate AVS_STOP ?a) \<and>
     getState (deactivate AVS_STOP ?a) = Alert_STOPPING \<and>
     m_activeAlert s' = None \<and> m_scheduledAlerts s' = []"
    by (intro exI [of _ s2] exI [of _ released]) simp
  from first second show ?thesis ..
qed

section \<open>Initialization from persisted rows\<close>

lemma initializeAlert_eq:
  "initializeAlert e now a s =
     s\<lparr>m_alertStorage := loadedRows e now (m_alertPastDueTimeLimit s) a (m_alertStorage s),
       m_scheduledAlerts :=
         (if isPastDue a now (m_alertPastDueTimeLimit s) then m_scheduledAlerts s
          else set_insert (loadedAlert a) (m_scheduledAlerts s)),
       m_executor := m_executor s @ pastDueNotes e now (m_alertPastDueTimeLimit s) a\<rparr>"
  by (simp add: initializeAlert_def eraseAlert_eq notifyObserver_def loadedRows_def
      pastDueNotes_def loadedAlert_def deletedNote_def Let_def)

lemma fold_initializeAlert:
  "fold (initializeAlert e now) as s =
     s\<lparr>m_alertStorage :=
         fold (loadedRows e now (m_alertPastDueTimeLimit s)) as (m_alertStorage s),
       m_scheduledAlerts :=
         fold (\<lambda>a xs. if isPastDue a now (m_alertPastDueTimeLimit s) then xs
                       else set_insert (loadedAlert a) xs) as (m_scheduledAlerts s),
       m_executor :=
         m_executor s @ concat (map (pastDueNotes e now (m_alertPastDueTimeLimit s)) as)\<rparr>"
  by (induction as arbitrary: s) (simp_all add: initializeAlert_eq)

lemma initialize_eq:
  assumes "openOk e" "loadOk e" "clockAtEntry e = Some now"
  shows "initialize e True s =
     (True, setTimerForNextAlertLocked e
        (fold (initializeAlert e now) (map fromRow (m_alertStorage s)) (s\<lparr>m_observer := True\<rparr>)))"
  using assms by (simp add: initialize_def Let_def storage_load_def)


lemma loadedAlert_key [simp]:
  "getToken (loadedAlert a) = getToken a"
  "getScheduledTime_Unix (loadedAlert a) = getScheduledTime_Unix a"
  by (simp_all add: loadedAlert_def setObserver_def setRenderer_def reset_def)

lemma set_insert_mono: "x \<in> set xs \<Longrightarrow> x \<in> set (set_insert a xs)"
  by (induction xs) auto

lemma fold_insert_mono:
  "x \<in> set xs \<Longrightarrow>
   x \<in> set (fold (\<lambda>a xs. if P a then xs else set_insert (f a) xs) as xs)"
  by (induction as arbitrary: xs) (auto intro: set_insert_mono)

lemma fold_insert_sub:
  "set (fold (\<lambda>a xs. if P a then xs else set_insert (f a) xs) as xs)
     \<subseteq> set xs \<union> f ` {a \<in> set as. \<not> P a}"
proof (induction as arbitrary: xs)
  case Nil
  then show ?case by simp
next
  case (Cons b bs)
  show ?case
  proof (cases "P b")
    case True
    with Cons [of xs] show ?thesis by auto
  next
    case False
    have "set (fold (\<lambda>a xs. if P a then xs else set_insert (f a) xs) bs (set_insert (f b) xs))
        \<subseteq> set (set_insert (f b) xs) \<union> f ` {a \<in> set bs. \<not> P a}"
      by (rule Cons)
    also have "\<dots> \<subseteq> insert (f b) (set xs) \<union> f ` {a \<in> set bs. \<not> P a}"
      using set_set_insert [of "f b" xs] by blast
    also have "\<dots> \<subseteq> set xs \<union> f ` {a \<in> set (b # bs). \<not> P a}"
      using False by auto
    finally show ?thesis
      using False by simp
  qed
qed

lemma fold_insert_member:
  assumes "distinct (map getToken as)"
    and "getToken ` set xs \<inter> getToken ` set as = {}"
    and "a \<in> set as" and "\<not> P a"
  shows "loadedAlert a \<in> set (fold (\<lambda>a xs. if P a then xs else set_insert (loadedAlert a) xs) as xs)"
  using assms(1,2,3)
proof (induction as arbitrary: xs)
  case Nil
  then show ?case by simp
next
  case (Cons b bs)
  let ?F = "\<lambda>a xs. if P a then xs else set_insert (loadedAlert a) xs"
  let ?xs1 = "?F b xs"
  have step: "fold ?F (b # bs) xs = fold ?F bs ?xs1"
    by simp
  from Cons.prems(2) have nb: "getToken b \<notin> getToken ` set xs"
    and nbs: "getToken ` set xs \<inter> getToken ` set bs = {}"
    by auto
  show ?case
  proof (cases "a = b")
    case True
    have "\<forall>x \<in> set xs. \<not> equivalent (loadedAlert b) x"
    proof (intro ballI notI)
      fix x assume x: "x \<in> set xs" "equivalent (loadedAlert b) x"
      then have "getToken b = getToken x" by (simp add: equivalent_iff)
      with x(1) nb show False by (metis imageI)
    qed
    then have "loadedAlert b \<in> set (set_insert (loadedAlert b) xs)"
      by (rule set_insert_member)
    with True assms(4) have "loadedAlert a \<in> set ?xs1" by simp
    then have "loadedAlert a \<in> set (fold ?F bs ?xs1)"
      by (rule fold_insert_mono [of _ _ P loadedAlert bs])
    with step show ?thesis by (simp only:)
  next
    case False
    with Cons.prems(3) have a: "a \<in> set bs" by simp
    from Cons.prems(1) have d: "distinct (map getToken bs)" "getToken b \<notin> getToken ` set bs"
      by simp_all
    define xs1 where "xs1 = ?xs1"
    have "set xs1 \<subseteq> insert (loadedAlert b) (set xs)"
      unfolding xs1_def using set_set_insert [of "loadedAlert b" xs] by auto
    from image_mono [OF this, of getToken]
    have sub: "getToken ` set xs1 \<subseteq> insert (getToken b) (getToken ` set xs)"
      by simp
    have "getToken ` set xs1 \<inter> getToken ` set bs = {}"
      unfolding disjoint_iff
    proof (intro allI impI)
      fix t assume "t \<in> getToken ` set xs1"
      with sub have "t = getToken b \<or> t \<in> getToken ` set xs" by blast
      then show "t \<notin> getToken ` set bs"
      proof
        assume "t = getToken b"
        with d(2) show ?thesis by simp
      next
        assume "t \<in> getToken ` set xs"
        with nbs show ?thesis unfolding disjoint_iff by blast
      qed
    qed
    from Cons.IH [OF d(1) this a] have "loadedAlert a \<in> set (fold ?F bs ?xs1)"
      unfolding xs1_def .
    with step show ?thesis by (simp only:)
  qed
qed

lemma loadedRows_tokens:
  "rowToken ` set (loadedRows e now limit a rows) \<subseteq> rowToken ` set rows"
proof -
  have "rowToken ` set (map (\<lambda>r. if rowToken r = getToken b then toRow b else r) rows)
      \<subseteq> rowToken ` set rows" for b
    by (induction rows) (auto simp: toRow_def)
  from this [of "reset a"] show ?thesis
    by (auto simp: loadedRows_def storage_erase_def storage_modify_def reset_def)
qed

lemma fold_loadedRows_tokens:
  "rowToken ` set (fold (loadedRows e now limit) as rows) \<subseteq> rowToken ` set rows"
proof (induction as arbitrary: rows)
  case Nil
  then show ?case by simp
next
  case (Cons b bs)
  from Cons [of "loadedRows e now limit b rows"] loadedRows_tokens [of e now limit b rows]
  show ?case by auto
qed

lemma loadedRows_other:
  "getToken a \<noteq> t \<Longrightarrow>
   filter (\<lambda>r. rowToken r = t) (loadedRows e now limit a rows) = filter (\<lambda>r. rowToken r = t) rows"
  by (induction rows)
    (auto simp: loadedRows_def storage_erase_def storage_modify_def toRow_def reset_def)

lemma fold_loadedRows_other:
  "t \<notin> getToken ` set as \<Longrightarrow>
   filter (\<lambda>r. rowToken r = t) (fold (loadedRows e now limit) as rows) =
   filter (\<lambda>r. rowToken r = t) rows"
  by (induction as arbitrary: rows) (auto simp: loadedRows_other)

lemma fold_loadedRows_erased:
  assumes "a \<in> set as" "isPastDue a now limit" "eraseOk e a"
  shows "getToken a \<notin> rowToken ` set (fold (loadedRows e now limit) as rows)"
  using assms(1)
proof (induction as arbitrary: rows)
  case Nil
  then show ?case by simp
next
  case (Cons b bs)
  show ?case
  proof (cases "a = b")
    case True
    with assms(2,3) have "getToken a \<notin> rowToken ` set (loadedRows e now limit b rows)"
      by (auto simp: loadedRows_def storage_erase_def)
    with fold_loadedRows_tokens [of e now limit bs "loadedRows e now limit b rows"]
    show ?thesis by auto
  next
    case False
    with Cons show ?thesis by simp
  qed
qed

lemma fold_loadedRows_reset:
  assumes "distinct (map getToken as)" "a \<in> set as" "\<not> isPastDue a now limit"
    "getState a = Alert_ACTIVE" "modifyOk e (reset a)" "getToken a \<in> rowToken ` set rows"
  shows "toRow (reset a) \<in> set (fold (loadedRows e now limit) as rows)"
  using assms(1,2,6)
proof (induction as arbitrary: rows)
  case Nil
  then show ?case by simp
next
  case (Cons b bs)
  let ?rows1 = "loadedRows e now limit b rows"
  show ?case
  proof (cases "a = b")
    case True
    with assms(3,4,5) Cons.prems(3) have "toRow (reset a) \<in> set ?rows1"
      by (auto simp: loadedRows_def storage_modify_def reset_def)
    moreover have "rowToken (toRow (reset a)) = getToken a"
      by (simp add: toRow_def reset_def)
    ultimately have "toRow (reset a) \<in> set (filter (\<lambda>r. rowToken r = getToken a) ?rows1)"
      by simp
    moreover from Cons.prems(1) True have "getToken a \<notin> getToken ` set bs"
      by simp
    ultimately have
      "toRow (reset a) \<in> set (filter (\<lambda>r. rowToken r = getToken a)
         (fold (loadedRows e now limit) bs ?rows1))"
      using fold_loadedRows_other [of "getToken a" bs e now limit ?rows1] by simp
    then show ?thesis by simp
  next
    case False
    with Cons.prems have a: "a \<in> set bs" and d: "distinct (map getToken bs)"
      and n: "getToken b \<noteq> getToken a"
      by auto
    from Cons.prems(3) have "filter (\<lambda>r. rowToken r = getToken a) rows \<noteq> []"
      by (auto simp: filter_empty_conv)
    with loadedRows_other [OF n, of e now limit rows]
    have "filter (\<lambda>r. rowToken r = getToken a) ?rows1 \<noteq> []" by simp
    then obtain x where "x \<in> set ?rows1" "rowToken x = getToken a"
      by (auto simp: filter_empty_conv)
    then have "getToken a \<in> rowToken ` set ?rows1"
      by (metis imageI)
    from Cons.IH [OF d a this] show ?thesis by simp
  qed
qed

lemma pastDueNotes_filter:
  "filter (\<lambda>n. notifiedToken n = t \<and> notifiedState n = PAST_DUE) (pastDueNotes e now limit b) =
     (if getToken b = t \<and> isPastDue b now limit
      then [(getToken b, getTypeName b, PAST_DUE, [])] else [])"
  by (simp add: pastDueNotes_def deletedNote_def notifiedToken_def notifiedState_def)

lemma pastDue_not_announced:
  "t \<notin> getToken ` set bs \<Longrightarrow>
   filter (\<lambda>n. notifiedToken n = t \<and> notifiedState n = PAST_DUE)
     (concat (map (pastDueNotes e now limit) bs)) = []"
  by (induction bs) (auto simp: pastDueNotes_filter)

lemma pastDue_announced_once:
  assumes "distinct (map getToken as)" "a \<in> set as" "isPastDue a now limit"
  shows "length (filter (\<lambda>n. notifiedToken n = getToken a \<and> notifiedState n = PAST_DUE)
            (concat (map (pastDueNotes e now limit) as))) = 1"
  using assms(1,2)
proof (induction as)
  case Nil
  then show ?case by simp
next
  case (Cons b bs)
  show ?case
  proof (cases "a = b")
    case True
    with Cons.prems(1) have "getToken a \<notin> getToken ` set bs" by simp
    from pastDue_not_announced [OF this] True assms(3) show ?thesis
      by (simp add: pastDueNotes_filter)
  next
    case False
    with Cons.prems have "a \<in> set bs" "distinct (map getToken bs)" "getToken b \<noteq> getToken a"
      by auto
    with Cons.IH show ?thesis
      by (simp add: pastDueNotes_filter)
  qed
qed

lemma readyFor_not_pastDue:
  "filter (\<lambda>n. notifiedToken n = t \<and> notifiedState n = PAST_DUE) (readyFor e active xs) = []"
  by (simp add: readyFor_def notifiedState_def split: option.split list.split)


lemma fromRow_token [simp]: "getToken (fromRow r) = rowToken r"
  by (simp add: fromRow_def)

text \<open>
  Claim C6. A scheduler with an empty set is initialized with an observer, over rows
  with pairwise different tokens, the storage opening and loading and the clock reading
  \<open>now\<close>. The call succeeds, and for every persisted row: if the alert is past due, the
  queue gains exactly one PastDue notification with its token, its row is gone when the
  storage erase succeeds, and no scheduled alert has its token; otherwise the alert is
  in the scheduled set, bound to renderer and observer, and if its row said Active the
  alert is in state Set and, when the storage modify succeeds, its row is written back
  with state Set.
\<close>

theorem initialize_handles_loaded_alerts:
  assumes "initialize e True s = (ok, s')"
    and "openOk e" and "loadOk e" and "clockAtEntry e = Some now"
    and "m_scheduledAlerts s = []"
    and "distinct (map rowToken (m_alertStorage s))"
    and "r \<in> set (m_alertStorage s)"
  shows "ok \<and>
    (isPastDue (fromRow r) now (m_alertPastDueTimeLimit s) \<longrightarrow>
       length (filter (\<lambda>n. notifiedToken n = rowToken r \<and> notifiedState n = PAST_DUE)
                 (drop (length (m_executor s)) (m_executor s'))) = 1 \<and>
       (eraseOk e (fromRow r) \<longrightarrow> rowToken r \<notin> rowToken ` set (m_alertStorage s')) \<and>
       rowToken r \<notin> getToken ` set (m_scheduledAlerts s')) \<and>
    (\<not> isPastDue (fromRow r) now (m_alertPastDueTimeLimit s) \<longrightarrow>
       loadedAlert (fromRow r) \<in> set (m_scheduledAlerts s') \<and>
       (rowState r = Alert_ACTIVE \<longrightarrow>
          getState (loadedAlert (fromRow r)) = Alert_SET \<and>
          rowState (toRow (reset (fromRow r))) = Alert_SET \<and>
          (modifyOk e (reset (fromRow r)) \<longrightarrow>
             toRow (reset (fromRow r)) \<in> set (m_alertStorage s'))))"
proof -
  let ?limit = "m_alertPastDueTimeLimit s"
  let ?as = "map fromRow (m_alertStorage s)"
  let ?a = "fromRow r"
  let ?P = "\<lambda>a. isPastDue a now ?limit"
  let ?ins = "\<lambda>a xs. if ?P a then xs else set_insert (loadedAlert a) xs"
  from assms(1-4) have ok: "ok"
    and s': "s' = setTimerForNextAlertLocked e
        (fold (initializeAlert e now) ?as (s\<lparr>m_observer := True\<rparr>))"
    by (simp_all add: initialize_eq)
  have sch: "m_scheduledAlerts s' = fold ?ins ?as []"
    and rows: "m_alertStorage s' = fold (loadedRows e now ?limit) ?as (m_alertStorage s)"
    and exe: "drop (length (m_executor s)) (m_executor s') =
        concat (map (pastDueNotes e now ?limit) ?as)
        @ readyFor e (m_activeAlert s) (m_scheduledAlerts s')"
    using assms(5) by (simp_all add: s' setTimer_eq fold_initializeAlert)
  have d: "distinct (map getToken ?as)"
    using assms(6) by (simp add: comp_def)
  have a: "?a \<in> set ?as"
    using assms(7) by simp
  have tok: "getToken ?a \<in> rowToken ` set (m_alertStorage s)"
    using assms(7) by simp
  have pd: "length (filter (\<lambda>n. notifiedToken n = rowToken r \<and> notifiedState n = PAST_DUE)
                 (drop (length (m_executor s)) (m_executor s'))) = 1 \<and>
       (eraseOk e ?a \<longrightarrow> rowToken r \<notin> rowToken ` set (m_alertStorage s')) \<and>
       rowToken r \<notin> getToken ` set (m_scheduledAlerts s')"
    if p: "?P ?a"
  proof (intro conjI impI)
    from pastDue_announced_once [OF d a p, of e]
    show "length (filter (\<lambda>n. notifiedToken n = rowToken r \<and> notifiedState n = PAST_DUE)
                 (drop (length (m_executor s)) (m_executor s'))) = 1"
      by (simp add: exe readyFor_not_pastDue)
  next
    assume "eraseOk e ?a"
    from fold_loadedRows_erased [OF a p this, of "m_alertStorage s"]
    show "rowToken r \<notin> rowToken ` set (m_alertStorage s')"
      by (simp add: rows)
  next
    show "rowToken r \<notin> getToken ` set (m_scheduledAlerts s')"
    proof
      assume "rowToken r \<in> getToken ` set (m_scheduledAlerts s')"
      then obtain x where x: "x \<in> set (fold ?ins ?as [])" "getToken x = rowToken r"
        unfolding sch by auto
      from x(1) fold_insert_sub [of ?P loadedAlert ?as "[]"]
      have "x \<in> loadedAlert ` {a \<in> set ?as. \<not> ?P a}"
        by (simp only: set_simps Un_empty_left) (erule (1) subsetD)
      then obtain b where b: "b \<in> set ?as" "\<not> ?P b" "x = loadedAlert b"
        by blast
      with x(2) have e: "getToken b = getToken ?a" by simp
      from d have "inj_on getToken (set ?as)"
        by (simp only: distinct_map)
      from this e b(1) a have "b = ?a"
        by (rule inj_onD)
      with b(2) p show False by simp
    qed
  qed
  have npd: "loadedAlert ?a \<in> set (m_scheduledAlerts s') \<and>
       (rowState r = Alert_ACTIVE \<longrightarrow>
          getState (loadedAlert ?a) = Alert_SET \<and>
          rowState (toRow (reset ?a)) = Alert_SET \<and>
          (modifyOk e (reset ?a) \<longrightarrow> toRow (reset ?a) \<in> set (m_alertStorage s')))"
    if p: "\<not> ?P ?a"
  proof (intro conjI impI)
    have "getToken ` set [] \<inter> getToken ` set ?as = {}" by simp
    from fold_insert_member [OF d this a, of ?P, OF p]
    show "loadedAlert ?a \<in> set (m_scheduledAlerts s')"
      by (simp only: sch)
  next
    assume "rowState r = Alert_ACTIVE"
    then show "getState (loadedAlert ?a) = Alert_SET"
      by (simp add: loadedAlert_def fromRow_def setObserver_def setRenderer_def reset_def)
  next
    show "rowState (toRow (reset ?a)) = Alert_SET"
      by (simp add: toRow_def reset_def)
  next
    assume "rowState r = Alert_ACTIVE" "modifyOk e (reset ?a)"
    then have "getState ?a = Alert_ACTIVE" "modifyOk e (reset ?a)"
      by (simp_all add: fromRow_def)
    from fold_loadedRows_reset [OF d a p this tok]
    show "toRow (reset ?a) \<in> set (m_alertStorage s')"
      by (simp only: rows)
  qed
  from ok pd npd show ?thesis by blast
qed

theorem initialize_handles_loaded_alerts_witness:
  "\<exists>s'. initialize example_env True example_boot = (True, s') \<and>
     openOk example_env \<and> loadOk example_env \<and> clockAtEntry example_env = Some 1000 \<and>
     m_scheduledAlerts example_boot = [] \<and>
     distinct (map rowToken (m_alertStorage example_boot)) \<and>
     rowC \<in> set (m_alertStorage example_boot) \<and> rowD \<in> set (m_alertStorage example_boot) \<and>
     isPastDue (fromRow rowC) 1000 (m_alertPastDueTimeLimit example_boot) \<and>
     \<not> isPastDue (fromRow rowD) 1000 (m_alertPastDueTimeLimit example_boot) \<and>
     length (filter (\<lambda>n. notifiedToken n = ''C'' \<and> notifiedState n = PAST_DUE)
               (drop (length (m_executor example_boot)) (m_executor s'))) = 1 \<and>
     ''C'' \<notin> rowToken ` set (m_alertStorage s') \<and>
     ''C'' \<notin> getToken ` set (m_scheduledAlerts s') \<and>
     loadedAlert (fromRow rowD) \<in> set (m_scheduledAlerts s') \<and>
     getState (loadedAlert (fromRow rowD)) = Alert_SET \<and>
     toRow (reset (fromRow rowD)) \<in> set (m_alertStorage s')"
proof -
  obtain ok s' where i: "initialize example_env True example_boot = (ok, s')"
    by (rule prod.exhaust)
  have h: "openOk example_env" "loadOk example_env" "clockAtEntry example_env = Some 1000"
    "m_scheduledAlerts example_boot = []"
    "distinct (map rowToken (m_alertStorage example_boot))"
    by (simp_all add: example_env_def example_boot_def AlertScheduler_def rowC_def rowD_def)
  have m: "rowC \<in> set (m_alertStorage example_boot)" "rowD \<in> set (m_alertStorage example_boot)"
    by (simp_all add: example_boot_def AlertScheduler_def)
  have p: "isPastDue (fromRow rowC) 1000 (m_alertPastDueTimeLimit example_boot)"
    "\<not> isPastDue (fromRow rowD) 1000 (m_alertPastDueTimeLimit example_boot)"
    "rowState rowD = Alert_ACTIVE" "rowToken rowC = ''C''"
    "eraseOk example_env (fromRow rowC)" "modifyOk example_env (reset (fromRow rowD))"
    by (simp_all add: isPastDue_def fromRow_def example_env_def example_boot_def
        AlertScheduler_def rowC_def rowD_def)
  from initialize_handles_loaded_alerts [OF i h m(1)] p
  have c: "ok"
    "length (filter (\<lambda>n. notifiedToken n = ''C'' \<and> notifiedState n = PAST_DUE)
               (drop (length (m_executor example_boot)) (m_executor s'))) = 1"
    "''C'' \<notin> rowToken ` set (m_alertStorage s')"
    "''C'' \<notin> getToken ` set (m_scheduledAlerts s')"
    by simp_all
  from initialize_handles_loaded_alerts [OF i h m(2)] p
  have d: "loadedAlert (fromRow rowD) \<in> set (m_scheduledAlerts s')"
    "getState (loadedAlert (fromRow rowD)) = Alert_SET"
    "toRow (reset (fromRow rowD)) \<in> set (m_alertStorage s')"
    by simp_all
  from i c(1) have "initialize example_env True example_boot = (True, s')"
    by simp
  with h m p(1,2) c(2-4) d show ?thesis
    by (intro exI [of _ s'] conjI)
qed

section \<open>The timer while an alert is active\<close>

lemma armedFor_active: "armedFor e (Some a) xs = None"
  by (simp add: armedFor_def)

lemma idle_frame:
  "timerIdleWhileActive (s\<lparr>m_alertStorage := rows\<rparr>) = timerIdleWhileActive s"
  "timerIdleWhileActive (s\<lparr>m_scheduledAlerts := xs\<rparr>) = timerIdleWhileActive s"
  "timerIdleWhileActive (s\<lparr>m_executor := ns\<rparr>) = timerIdleWhileActive s"
  "timerIdleWhileActive (s\<lparr>m_focusState := f\<rparr>) = timerIdleWhileActive s"
  "timerIdleWhileActive (s\<lparr>m_observer := b\<rparr>) = timerIdleWhileActive s"
  "timerIdleWhileActive (s\<lparr>m_scheduledAlertTimer := None\<rparr>)"
  "timerIdleWhileActive (s\<lparr>m_activeAlert := None\<rparr>)"
  "timerIdleWhileActive (notifyObserver tok ty st r s) = timerIdleWhileActive s"
  by (simp_all add: timerIdleWhileActive_def timer_isActive_def notifyObserver_def)

lemma idle_active_replaced:
  "m_activeAlert s = Some a \<Longrightarrow>
   timerIdleWhileActive (s\<lparr>m_activeAlert := Some b\<rparr>) = timerIdleWhileActive s"
  by (simp add: timerIdleWhileActive_def timer_isActive_def)

lemma idle_setTimer: "timerIdleWhileActive (setTimerForNextAlertLocked e s)"
  by (cases "m_activeAlert s")
    (simp_all add: timerIdleWhileActive_def setTimer_eq timer_isActive_def armedFor_active)

lemma idle_finallyGuard:
  "timerIdleWhileActive s \<Longrightarrow> timerIdleWhileActive (finallyGuard e a s)"
  by (simp add: finallyGuard_def Let_def idle_setTimer idle_frame)

lemma idle_updateAlert:
  "timerIdleWhileActive s \<Longrightarrow> timerIdleWhileActive (snd (updateAlert e a t s))"
  by (cases "convert8601 e t")
    (simp_all add: updateAlert_cases Let_def idle_finallyGuard idle_frame)

lemma idle_scheduleAlert:
  "timerIdleWhileActive s \<Longrightarrow> timerIdleWhileActive (snd (scheduleAlert e a s))"
  by (simp add: scheduleAlert_def storage_store_def Let_def idle_updateAlert idle_setTimer
      idle_frame split: option.split)

lemma fold_initializeAlert_idle:
  "timerIdleWhileActive (fold (initializeAlert e now) as s) = timerIdleWhileActive s"
  by (simp add: fold_initializeAlert idle_frame)

lemma idle_initialize:
  "timerIdleWhileActive s \<Longrightarrow> timerIdleWhileActive (snd (initialize e observer s))"
  by (simp add: initialize_def Let_def idle_setTimer storage_createDatabase_def
      idle_frame split: option.split)

lemma idle_deactivate:
  "timerIdleWhileActive s \<Longrightarrow> timerIdleWhileActive (deactivateActiveAlertHelperLocked r s)"
  by (simp add: deactivateActiveAlertHelperLocked_def idle_active_replaced split: option.split)

lemma idle_snoozeAlert:
  "timerIdleWhileActive s \<Longrightarrow> timerIdleWhileActive (snd (snoozeAlert e tok t s))"
  by (cases "m_activeAlert s")
    (simp_all add: snoozeAlert_def activeAlertWithToken_def idle_active_replaced)

lemma idle_deleteAlert:
  "timerIdleWhileActive s \<Longrightarrow> timerIdleWhileActive (snd (deleteAlert e tok s))"
  by (simp add: deleteAlert_def Let_def idle_setTimer idle_deactivate split: option.split)

lemma idle_deleteAlerts:
  "timerIdleWhileActive s \<Longrightarrow> timerIdleWhileActive (fst (snd (deleteAlerts e toks s)))"
proof (cases "fst (deleteAlerts e toks s)")
  case False
  moreover assume "timerIdleWhileActive s"
  ultimately show ?thesis
    by (simp add: deleteAlerts_eq Let_def idle_frame split: if_splits)
next
  case True
  then obtain s0 where "fst (snd (deleteAlerts e toks s)) = setTimerForNextAlertLocked e s0"
    by (simp add: deleteAlerts_def Let_def split: prod.splits bool.splits)
  then show ?thesis by (simp add: idle_setTimer)
qed

lemma idle_updateFocus:
  assumes "timerIdleWhileActive s" and "\<not> promotesWhileArmed (UpdateFocus f) s"
  shows "timerIdleWhileActive (updateFocus f s)"
proof (cases "m_focusState s = f")
  case True
  with assms(1) show ?thesis by (simp add: updateFocus_def)
next
  case changed: False
  show ?thesis
  proof (cases "m_activeAlert s")
    case (Some a)
    with assms(1) changed show ?thesis
      by (cases f)
        (simp_all add: updateFocus_def focusEntered_def deactivateActiveAlertHelperLocked_def
          idle_frame idle_active_replaced)
  next
    case None
    show ?thesis
    proof (cases "f = NONE")
      case True
      with None changed assms(1) show ?thesis
        by (simp add: updateFocus_def deactivateActiveAlertHelperLocked_def idle_frame)
    next
      case False
      show ?thesis
      proof (cases "m_scheduledAlerts s")
        case Nil
        with None False changed assms(1) show ?thesis
          by (cases f)
            (simp_all add: updateFocus_def focusEntered_def activateNextAlertLocked_def idle_frame)
      next
        case (Cons x xs)
        with assms(2) None False changed have "\<not> timer_isActive s"
          by (auto simp: promotesWhileArmed_def)
        with None False changed Cons show ?thesis
          by (cases f)
            (simp_all add: updateFocus_def focusEntered_def activateNextAlertLocked_def
              timerIdleWhileActive_def timer_isActive_def)
      qed
    qed
  qed
qed

lemma fold_notify_idle:
  "timerIdleWhileActive (fold (\<lambda>alert. notifyObserver (f alert) (g alert) st r) xs s)
     = timerIdleWhileActive s"
  by (induction xs arbitrary: s) (simp_all add: idle_frame)

lemma idle_clearData: "timerIdleWhileActive (clearData e r s)"
  by (simp add: clearData_def Let_def stop_when_active timer_stop_def fold_notify_idle
      idle_frame)

lemma idle_timerExpired:
  "timerIdleWhileActive s \<Longrightarrow> timerIdleWhileActive (timerExpired s)"
  by (simp add: timerExpired_def onAlertReady_def timer_stop_def idle_frame split: option.split)

lemma idle_execute:
  assumes "timerIdleWhileActive s" and "executeOnAlertStateChange e tok ty st r s = Inr s'"
  shows "timerIdleWhileActive s'"
proof (cases st)
  case STARTED
  with assms show ?thesis
    by (auto simp: executeOnAlertStateChange_def Let_def idle_frame idle_active_replaced
        split: option.splits if_splits)
next
  case SNOOZED
  with assms(2) show ?thesis
    by (auto elim!: snoozed_returns simp: idle_setTimer)
next
  case ERROR
  with assms show ?thesis
    by (auto simp: executeOnAlertStateChange_def Let_def idle_setTimer idle_frame
        split: option.splits)
qed (use assms in \<open>auto simp: executeOnAlertStateChange_def stoppedOrCompleted_def Let_def
        idle_setTimer idle_frame\<close>)

lemma idle_perform:
  "timerIdleWhileActive s \<Longrightarrow> \<not> promotesWhileArmed op s \<Longrightarrow> perform e op s = Inr s' \<Longrightarrow>
   timerIdleWhileActive s'"
  by (cases op)
    (auto simp: idle_initialize idle_scheduleAlert idle_snoozeAlert idle_deleteAlert
      idle_deleteAlerts idle_updateFocus onLocalStop_def idle_deactivate idle_clearData
      idle_timerExpired intro: idle_execute)

text \<open>
  Claim C1, as the code has it. The claim as stated fails: \<^verbatim>\<open>activateNextAlertLocked\<close>
  does not touch the timer, so a focus change that promotes an alert while the timer
  is armed gives a scheduler with an active alert and an armed timer. In every scheduler reached by a sequence of
  calls in which no focus change promotes an alert while the timer is armed, an
  occupied active slot implies an idle timer, and so it is after \<^verbatim>\<open>shutdown\<close>;
  \<^verbatim>\<open>activateNextAlertLocked\<close> itself leaves the timer as it finds it.
\<close>

theorem timer_idle_while_active_unless_promoted_armed:
  assumes "reachableIdle s"
  shows "timerIdleWhileActive s \<and> timerIdleWhileActive (shutdown s) \<and>
    m_scheduledAlertTimer (activateNextAlertLocked s) = m_scheduledAlertTimer s"
proof -
  from assms have "timerIdleWhileActive s"
  proof (induction rule: reachableIdle.induct)
    case (constructedIdle alertStorage alertPastDueTimeLimit)
    show ?case by (simp add: timerIdleWhileActive_def AlertScheduler_def)
  next
    case (performedIdle s op e s')
    then show ?case by (blast intro: idle_perform)
  qed
  moreover have "timerIdleWhileActive (shutdown s)"
    by (simp add: shutdown_def timerIdleWhileActive_def)
  moreover have "m_scheduledAlertTimer (activateNextAlertLocked s) = m_scheduledAlertTimer s"
    by (simp add: activateNextAlertLocked_def split: list.split)
  ultimately show ?thesis by simp
qed

theorem timer_idle_while_active_unless_promoted_armed_witness:
  "reachableIdle example_promoted_idle \<and>
   m_activeAlert example_promoted_idle =
     Some (activate (setFocusState FOREGROUND (setObserver (setRenderer alertA)))) \<and>
   timerIdleWhileActive example_promoted_idle \<and>
   m_scheduledAlertTimer example_promoted_idle = None"
proof -
  have r0: "reachableIdle example_fresh"
    unfolding example_fresh_def by (rule reachableIdle.constructedIdle)
  have r1: "reachableIdle example_scheduled"
    by (rule reachableIdle.performedIdle [OF r0, of "ScheduleAlert alertA" example_env])
      (simp_all add: promotesWhileArmed_def example_scheduled_def)
  have r2: "reachableIdle (timerExpired example_scheduled)"
    by (rule reachableIdle.performedIdle [OF r1, of TimerExpired example_env])
      (simp_all add: promotesWhileArmed_def)
  have r3: "reachableIdle example_promoted_idle"
    by (rule reachableIdle.performedIdle [OF r2, of "UpdateFocus FOREGROUND" example_env])
      (simp_all add: promotesWhileArmed_def example_promoted_idle_def example_scheduled_eq
        timerExpired_def timer_stop_def onAlertReady_def notifyObserver_def timer_isActive_def)
  have a: "m_activeAlert example_promoted_idle =
     Some (activate (setFocusState FOREGROUND (setObserver (setRenderer alertA))))"
    by (simp add: example_promoted_idle_def example_scheduled_eq timerExpired_def timer_stop_def
        onAlertReady_def notifyObserver_def updateFocus_def focusEntered_def
        activateNextAlertLocked_def)
  from timer_idle_while_active_unless_promoted_armed [OF r3]
  have i: "timerIdleWhileActive example_promoted_idle" by simp
  with a have "m_scheduledAlertTimer example_promoted_idle = None"
    by (simp add: timerIdleWhileActive_def timer_isActive_def)
  with r3 a i show ?thesis by simp
qed

text \<open>
  The scheduler in which the claim C1, as stated, fails: A is scheduled for 1100 at
  time 1000 on a fresh scheduler, which arms the timer for 100 seconds; the focus
  changes to foreground; \<^verbatim>\<open>activateNextAlertLocked\<close> promotes A and the timer stays
  armed.
\<close>

theorem promotion_leaves_timer_armed:
  "reachable example_promoted_armed \<and>
   example_promoted_armed =
     activateNextAlertLocked (example_scheduled\<lparr>m_focusState := FOREGROUND\<rparr>) \<and>
   m_activeAlert example_promoted_armed =
     Some (activate (setFocusState FOREGROUND (setObserver (setRenderer alertA)))) \<and>
   m_scheduledAlertTimer example_promoted_armed =
     Some \<lparr>taskDelay = 100, taskToken = ''A'', taskType = ''ALARM''\<rparr> \<and>
   \<not> timerIdleWhileActive example_promoted_armed"
proof -
  have r0: "reachable example_fresh"
    unfolding example_fresh_def by (rule reachable.constructed)
  have r1: "reachable example_scheduled"
    by (rule reachable.performed [OF r0, of example_env "ScheduleAlert alertA"])
      (simp add: example_scheduled_def)
  have r2: "reachable example_promoted_armed"
    by (rule reachable.performed [OF r1, of example_env "UpdateFocus FOREGROUND"])
      (simp add: example_promoted_armed_def)
  have e: "example_promoted_armed =
     activateNextAlertLocked (example_scheduled\<lparr>m_focusState := FOREGROUND\<rparr>)"
    by (simp add: example_promoted_armed_def example_scheduled_eq updateFocus_def
        focusEntered_def)
  have v: "m_activeAlert example_promoted_armed =
     Some (activate (setFocusState FOREGROUND (setObserver (setRenderer alertA))))"
    "m_scheduledAlertTimer example_promoted_armed =
     Some \<lparr>taskDelay = 100, taskToken = ''A'', taskType = ''ALARM''\<rparr>"
    by (simp_all add: e example_scheduled_eq activateNextAlertLocked_def)
  then have "\<not> timerIdleWhileActive example_promoted_armed"
    by (simp add: timerIdleWhileActive_def timer_isActive_def)
  with r2 e v show ?thesis by simp
qed

section \<open>Agreement of memory and storage\<close>










lemma finallyGuard_memory:
  "m_scheduledAlerts (finallyGuard e a s) = set_insert a (m_scheduledAlerts s)"
  "m_activeAlert (finallyGuard e a s) = m_activeAlert s"
  by (simp_all add: finallyGuard_def Let_def setTimer_eq)

lemma updateAlert_scheduled:
  "\<exists>alert'. getToken alert' = getToken a \<and>
     m_scheduledAlerts (snd (updateAlert e a t s)) =
       set_insert alert' (set_erase a (m_scheduledAlerts s))"
proof (cases "convert8601 e t")
  case None
  then show ?thesis
    by (intro exI [of _ a]) (simp add: updateAlert_cases finallyGuard_memory)
next
  case (Some unix)
  let ?a1 = "a\<lparr>getScheduledTime_ISO_8601 := t, getScheduledTime_Unix := unix\<rparr>"
  show ?thesis
  proof (cases "modifyOk e ?a1")
    case True
    with Some show ?thesis
      by (intro exI [of _ ?a1]) (simp add: updateAlert_cases finallyGuard_memory Let_def)
  next
    case False
    with Some show ?thesis
      by (intro exI [of _ "snd (updateScheduledTime e (getScheduledTime_ISO_8601 a) ?a1)"])
        (simp add: updateAlert_cases finallyGuard_memory updateScheduledTime_token Let_def)
  qed
qed








































section \<open>The order of the scheduled set\<close>

text \<open>Every scheduler that a sequence of calls produces holds its scheduled alerts in
  the order of the comparator, so the first element of the list is the first alert by
  (scheduled time, token).\<close>

lemma sorted_fold_set_erase:
  "sorted_wrt TimeComparator xs \<Longrightarrow> sorted_wrt TimeComparator (fold set_erase as xs)"
  by (induction as arbitrary: xs) (simp_all add: sorted_set_erase)

lemma sorted_fold_insert:
  "sorted_wrt TimeComparator xs \<Longrightarrow>
   sorted_wrt TimeComparator (fold (\<lambda>a xs. if P a then xs else set_insert (f a) xs) as xs)"
  by (induction as arbitrary: xs) (simp_all add: sorted_set_insert)

lemma ordered_updateAlert:
  "sorted_wrt TimeComparator (m_scheduledAlerts s) \<Longrightarrow>
   sorted_wrt TimeComparator (m_scheduledAlerts (snd (updateAlert e a t s)))"
proof -
  assume "sorted_wrt TimeComparator (m_scheduledAlerts s)"
  moreover obtain alert' where "m_scheduledAlerts (snd (updateAlert e a t s)) =
      set_insert alert' (set_erase a (m_scheduledAlerts s))"
    using updateAlert_scheduled [of a e t s] by blast
  ultimately show ?thesis
    by (simp add: sorted_set_insert sorted_set_erase)
qed

lemma ordered_scheduleAlert:
  "sorted_wrt TimeComparator (m_scheduledAlerts s) \<Longrightarrow>
   sorted_wrt TimeComparator (m_scheduledAlerts (snd (scheduleAlert e a s)))"
  by (simp add: scheduleAlert_def storage_store_def Let_def ordered_updateAlert setTimer_eq
      notifyObserver_def eraseAlert_eq
      sorted_set_insert split: option.split)

lemma ordered_initialize:
  "sorted_wrt TimeComparator (m_scheduledAlerts s) \<Longrightarrow>
   sorted_wrt TimeComparator (m_scheduledAlerts (snd (initialize e observer s)))"
  by (simp add: initialize_def Let_def storage_createDatabase_def setTimer_eq notifyObserver_def eraseAlert_eq
      fold_initializeAlert split: option.split)
    (simp add: sorted_fold_insert)

lemma ordered_snoozeAlert:
  "sorted_wrt TimeComparator (m_scheduledAlerts s) \<Longrightarrow>
   sorted_wrt TimeComparator (m_scheduledAlerts (snd (snoozeAlert e tok t s)))"
  by (simp add: snoozeAlert_def setTimer_eq notifyObserver_def eraseAlert_eq split: option.split)

lemma ordered_deactivate:
  "sorted_wrt TimeComparator (m_scheduledAlerts s) \<Longrightarrow>
   sorted_wrt TimeComparator (m_scheduledAlerts (deactivateActiveAlertHelperLocked r s))"
  by (simp add: deactivateActiveAlertHelperLocked_def setTimer_eq notifyObserver_def eraseAlert_eq split: option.split)

lemma ordered_deleteAlert:
  "sorted_wrt TimeComparator (m_scheduledAlerts s) \<Longrightarrow>
   sorted_wrt TimeComparator (m_scheduledAlerts (snd (deleteAlert e tok s)))"
  by (simp add: deleteAlert_def Let_def setTimer_eq notifyObserver_def eraseAlert_eq
      ordered_deactivate split: option.split)
    (simp add: eraseAlert_eq sorted_set_erase)

lemma ordered_deleteAlerts:
  "sorted_wrt TimeComparator (m_scheduledAlerts s) \<Longrightarrow>
   sorted_wrt TimeComparator (m_scheduledAlerts (fst (snd (deleteAlerts e toks s))))"
  by (simp add: deleteAlerts_eq Let_def sorted_fold_set_erase)

lemma ordered_updateFocus:
  "sorted_wrt TimeComparator (m_scheduledAlerts s) \<Longrightarrow>
   sorted_wrt TimeComparator (m_scheduledAlerts (updateFocus f s))"
  by (cases f; cases "m_activeAlert s"; cases "m_scheduledAlerts s")
    (simp_all add: updateFocus_def focusEntered_def activateNextAlertLocked_def Let_def
      deactivateActiveAlertHelperLocked_def notifyObserver_def)

lemma ordered_clearData:
  "sorted_wrt TimeComparator (m_scheduledAlerts (clearData e r s))"
  by (simp add: clearData_def Let_def)

lemma ordered_timerExpired:
  "sorted_wrt TimeComparator (m_scheduledAlerts s) \<Longrightarrow>
   sorted_wrt TimeComparator (m_scheduledAlerts (timerExpired s))"
  by (simp add: timerExpired_def onAlertReady_def timer_stop_def setTimer_eq notifyObserver_def eraseAlert_eq
      split: option.split)

lemma ordered_execute:
  assumes "sorted_wrt TimeComparator (m_scheduledAlerts s)" and "executeOnAlertStateChange e tok ty st r s = Inr s'"
  shows "sorted_wrt TimeComparator (m_scheduledAlerts s')"
proof (cases st)
  case STARTED
  with assms show ?thesis
    by (auto simp: executeOnAlertStateChange_def Let_def setTimer_eq notifyObserver_def eraseAlert_eq
        split: option.splits if_splits)
next
  case SNOOZED
  with assms show ?thesis
    by (auto elim!: snoozed_returns simp: setTimer_eq notifyObserver_def sorted_set_insert)
next
  case ERROR
  with assms show ?thesis
    by (auto simp: executeOnAlertStateChange_def Let_def setTimer_eq notifyObserver_def eraseAlert_eq
        eraseAlert_eq sorted_set_erase split: option.splits)
qed (use assms in \<open>auto simp: executeOnAlertStateChange_def stoppedOrCompleted_def Let_def
        setTimer_eq notifyObserver_def eraseAlert_eq\<close>)

lemma reachable_ordered:
  "reachable s \<Longrightarrow>
   sorted_wrt TimeComparator (m_scheduledAlerts s)"
proof (induction rule: reachable.induct)
  case (constructed alertStorage alertPastDueTimeLimit)
  show ?case by (simp add: AlertScheduler_def)
next
  case (performed s e op s')
  then show ?case
    by (cases op)
      (auto simp: ordered_initialize ordered_scheduleAlert ordered_snoozeAlert
        ordered_deleteAlert ordered_deleteAlerts ordered_updateFocus onLocalStop_def
        ordered_deactivate ordered_clearData ordered_timerExpired intro: ordered_execute)
qed

end
